theory Spec2Isabelle
  imports Main "HOL-Library.Word" "HOL-Library.Sublist"
begin

section \<open>MarkGrow contact-form backend (backend-example.js)\<close>

text \<open>
  The backend is one Express application with two routes: the handler of
  \<^verbatim>\<open>POST /api/submit-form\<close>, which validates a submission and relays it through
  two calls of \<^verbatim>\<open>transporter.sendMail\<close>, and the handler of \<^verbatim>\<open>GET /health\<close>.
  Both are embedded below as functions from what the handler reads (the request body,
  \<^verbatim>\<open>process.env\<close>, the clock, the outcome of each transport call) to the response and
  the effects it leaves behind.
\<close>

subsection \<open>JavaScript strings and values\<close>

text \<open>
  A JavaScript string is a sequence of UTF-16 code units; the regular expression of the
  handler has no \<^verbatim>\<open>u\<close> flag and so works on code units. \<open>js\<close> turns an ASCII literal
  of the source into its code units.
\<close>

type_synonym code_unit = "16 word"
type_synonym jsstring = "code_unit list"

definition js :: "string \<Rightarrow> jsstring" where
  "js cs = map of_char cs"

text \<open>
  A field of the parsed body is text, or \<^verbatim>\<open>null\<close>, or missing (reading it gives
  \<^verbatim>\<open>undefined\<close>); so is a variable of \<^verbatim>\<open>process.env\<close>, which is text or missing.
  The form posts text fields only: numbers, booleans, arrays and objects in the body
  are outside this model. \<open>truthy\<close> is the test that \<^verbatim>\<open>!x\<close>, \<^verbatim>\<open>x ? a : b\<close> and
  \<^verbatim>\<open>x || y\<close> apply, \<open>toString\<close> the conversion that a template literal and
  \<^verbatim>\<open>RegExp.prototype.test\<close> apply to their argument.
\<close>

datatype jsval = Undefined | Null | Str jsstring

fun truthy :: "jsval \<Rightarrow> bool" where
  "truthy Undefined = False"
| "truthy Null = False"
| "truthy (Str s) = (s \<noteq> [])"

fun toString :: "jsval \<Rightarrow> jsstring" where
  "toString Undefined = js ''undefined''"
| "toString Null = js ''null''"
| "toString (Str s) = s"

definition js_or :: "jsval \<Rightarrow> jsval \<Rightarrow> jsval" where
  \<comment> \<open>\<^verbatim>\<open>a || b\<close>\<close>
  "js_or a b = (if truthy a then a else b)"

subsection \<open>The clock\<close>

text \<open>
  What \<^verbatim>\<open>new Date()\<close> gives when a handler runs: a Date object holding the current
  time value, the milliseconds since 1970-01-01T00:00:00Z. Its rendering by
  \<^verbatim>\<open>toLocaleString\<close> is implementation-defined (locale and time zone of the host) and
  is taken as given; its rendering by \<^verbatim>\<open>toISOString\<close> is fixed by the language and
  is defined below from the time value.
\<close>

record date =
  time_value :: int
  toLocaleString :: jsstring

subsection \<open>Date.prototype.toISOString\<close>

text \<open>
  The abstract operations of ECMAScript on a time value \<open>t\<close>: the day number and the
  year, month, day of the month, hour, minute, second and millisecond in UTC.
  ECMAScript defines \<open>YearFromTime t\<close> as the largest \<open>y\<close> with
  \<open>msPerDay * DayFromYear y \<le> t\<close>; it is computed here from an estimate that is at
  most one year off, and shown to be that year in \<open>YearFromTime_TimeFromYear\<close> and
  \<open>YearFromTime_largest\<close>. The time value of a Date is an integer of at most 8.64e15
  in absolute value.
\<close>

definition msPerDay :: int where
  "msPerDay = 86400000"

definition Day :: "int \<Rightarrow> int" where
  "Day t = t div msPerDay"

definition DaysInYear :: "int \<Rightarrow> int" where
  "DaysInYear y =
     (if y mod 4 \<noteq> 0 then 365 else if y mod 100 \<noteq> 0 then 366
      else if y mod 400 \<noteq> 0 then 365 else 366)"

definition DayFromYear :: "int \<Rightarrow> int" where
  "DayFromYear y =
     365 * (y - 1970) + (y - 1969) div 4 - (y - 1901) div 100 + (y - 1601) div 400"

definition YearFromTime :: "int \<Rightarrow> int" where
  "YearFromTime t =
     (let y = 1970 + (400 * Day t) div 146097 in
      if Day t < DayFromYear y then y - 1
      else if DayFromYear (y + 1) \<le> Day t then y + 1
      else y)"

definition InLeapYear :: "int \<Rightarrow> int" where
  "InLeapYear t = (if DaysInYear (YearFromTime t) = 366 then 1 else 0)"

definition DayWithinYear :: "int \<Rightarrow> int" where
  "DayWithinYear t = Day t - DayFromYear (YearFromTime t)"

definition MonthFromTime :: "int \<Rightarrow> int" where
  "MonthFromTime t =
     (let d = DayWithinYear t; l = InLeapYear t in
      if d < 31 then 0
      else if d < 59 + l then 1
      else if d < 90 + l then 2
      else if d < 120 + l then 3
      else if d < 151 + l then 4
      else if d < 181 + l then 5
      else if d < 212 + l then 6
      else if d < 243 + l then 7
      else if d < 273 + l then 8
      else if d < 304 + l then 9
      else if d < 334 + l then 10
      else 11)"

definition DateFromTime :: "int \<Rightarrow> int" where
  "DateFromTime t =
     (let d = DayWithinYear t; l = InLeapYear t; m = MonthFromTime t in
      if m = 0 then d + 1
      else if m = 1 then d - 30
      else if m = 2 then d - 58 - l
      else if m = 3 then d - 89 - l
      else if m = 4 then d - 119 - l
      else if m = 5 then d - 150 - l
      else if m = 6 then d - 180 - l
      else if m = 7 then d - 211 - l
      else if m = 8 then d - 242 - l
      else if m = 9 then d - 272 - l
      else if m = 10 then d - 303 - l
      else d - 333 - l)"

definition HourFromTime :: "int \<Rightarrow> int" where
  "HourFromTime t = (t div 3600000) mod 24"

definition MinFromTime :: "int \<Rightarrow> int" where
  "MinFromTime t = (t div 60000) mod 60"

definition SecFromTime :: "int \<Rightarrow> int" where
  "SecFromTime t = (t div 1000) mod 60"

definition msFromTime :: "int \<Rightarrow> int" where
  "msFromTime t = t mod 1000"

text \<open>
  The string: \<^verbatim>\<open>YYYY-MM-DDTHH:mm:ss.sssZ\<close>, the year with four digits from 0 to 9999
  and otherwise with a sign and six digits.
\<close>

definition digit :: "int \<Rightarrow> code_unit" where
  "digit n = 0x30 + of_int n"

fun digits :: "nat \<Rightarrow> int \<Rightarrow> jsstring" where
  "digits 0 n = []"
| "digits (Suc k) n = digits k (n div 10) @ [digit (n mod 10)]"

definition year_string :: "int \<Rightarrow> jsstring" where
  "year_string y =
     (if 0 \<le> y \<and> y \<le> 9999 then digits 4 y
      else (if y < 0 then js ''-'' else js ''+'') @ digits 6 \<bar>y\<bar>)"

definition toISOString :: "date \<Rightarrow> jsstring" where
  "toISOString d =
     (let t = time_value d in
      year_string (YearFromTime t) @ js ''-'' @ digits 2 (MonthFromTime t + 1)
      @ js ''-'' @ digits 2 (DateFromTime t)
      @ js ''T'' @ digits 2 (HourFromTime t)
      @ js '':'' @ digits 2 (MinFromTime t)
      @ js '':'' @ digits 2 (SecFromTime t)
      @ js ''.'' @ digits 3 (msFromTime t)
      @ js ''Z'')"

subsection \<open>The address pattern\<close>

text \<open>
  \<^verbatim>\<open>/^[^\s@]+@[^\s@]+\.[^\s@]+$/\<close>: a sequence of pieces between the anchors \<^verbatim>\<open>^\<close>
  and \<^verbatim>\<open>$\<close>, each piece an atom taken once or one or more times (\<^verbatim>\<open>+\<close>), each atom
  a literal code unit or a negated class \<^verbatim>\<open>[^...]\<close>. The pattern has no flags: the
  anchors are the two ends of the input, matching is by code unit and case-sensitive,
  and \<^verbatim>\<open>test\<close> keeps no position between calls.
\<close>

definition isWhiteSpace :: "code_unit \<Rightarrow> bool" where
  \<comment> \<open>\<^verbatim>\<open>\s\<close>: the white space and line terminator code points of ECMAScript\<close>
  "isWhiteSpace c =
     (c \<in> set [0x0009, 0x000A, 0x000B, 0x000C, 0x000D, 0x0020, 0x00A0, 0x1680,
                0x2028, 0x2029, 0x202F, 0x205F, 0x3000, 0xFEFF]
      \<or> (0x2000 \<le> c \<and> c \<le> 0x200A))"

datatype class_item = WhiteSpace | Unit code_unit

datatype atom = Literal code_unit | NegatedClass "class_item list"

datatype piece = Single atom | OneOrMore atom

fun item_matches :: "class_item \<Rightarrow> code_unit \<Rightarrow> bool" where
  "item_matches WhiteSpace c = isWhiteSpace c"
| "item_matches (Unit u) c = (c = u)"

fun atom_matches :: "atom \<Rightarrow> code_unit \<Rightarrow> bool" where
  "atom_matches (Literal u) c = (c = u)"
| "atom_matches (NegatedClass items) c = (\<not> list_ex (\<lambda>i. item_matches i c) items)"

text \<open>
  The backtracking matcher, anchored at both ends: a \<^verbatim>\<open>+\<close> piece first tries to take
  one more code unit and falls back to the rest of the pattern.
\<close>

fun matches :: "piece list \<Rightarrow> jsstring \<Rightarrow> bool" where
  "matches [] s = (s = [])"
| "matches (Single a # ps) [] = False"
| "matches (Single a # ps) (c # cs) = (atom_matches a c \<and> matches ps cs)"
| "matches (OneOrMore a # ps) [] = False"
| "matches (OneOrMore a # ps) (c # cs) =
     (atom_matches a c \<and> (matches (OneOrMore a # ps) cs \<or> matches ps cs))"

definition at_sign :: code_unit where
  "at_sign = 0x40"

definition full_stop :: code_unit where
  "full_stop = 0x2E"

definition not_space_or_at :: atom where
  \<comment> \<open>\<^verbatim>\<open>[^\s@]\<close>\<close>
  "not_space_or_at = NegatedClass [WhiteSpace, Unit at_sign]"

definition emailRegex :: "piece list" where
  "emailRegex =
     [OneOrMore not_space_or_at, Single (Literal at_sign),
      OneOrMore not_space_or_at, Single (Literal full_stop),
      OneOrMore not_space_or_at]"

definition test :: "piece list \<Rightarrow> jsval \<Rightarrow> bool" where
  \<comment> \<open>\<^verbatim>\<open>regex.test(v)\<close> converts its argument to a string first\<close>
  "test r v = matches r (toString v)"

subsection \<open>Requests, configuration, messages and effects\<close>

text \<open>
  The six fields the handler takes from \<^verbatim>\<open>req.body\<close>. The body itself is a
  \<open>submission option\<close>: \<open>None\<close> is a request for which no body parser produced an
  object, so that \<^verbatim>\<open>req.body\<close> is \<^verbatim>\<open>undefined\<close>.
\<close>

record submission =
  name :: jsval
  email :: jsval
  website :: jsval
  phone :: jsval
  service :: jsval
  message :: jsval

text \<open>The variables of \<^verbatim>\<open>process.env\<close> that the handler reads.\<close>

record env =
  EMAIL_USER :: jsval
  RECIPIENT_EMAIL :: jsval

text \<open>
  The object passed to \<^verbatim>\<open>sendMail\<close>; a property the object does not have reads
  as \<open>Undefined\<close>.
\<close>

record mail =
  from_addr :: jsval
  to_addr :: jsval
  subject :: jsstring
  html :: jsstring
  replyTo :: jsval

text \<open>
  A call of \<^verbatim>\<open>transporter.sendMail\<close> returns a promise; the handler awaits it. The
  promise is fulfilled, or rejected with an error (the \<^verbatim>\<open>await\<close> throws), or is
  never settled (the handler never resumes). The transport is outside the program: it is
  a parameter giving the outcome of a call from the calls made before and the message.
\<close>

datatype 'e outcome = Resolved | Rejected 'e | Pending

type_synonym 'e transporter = "mail list \<Rightarrow> mail \<Rightarrow> 'e outcome"

text \<open>
  What the \<^verbatim>\<open>try\<close> block can throw: the \<^verbatim>\<open>TypeError\<close> of destructuring a request
  body that is \<^verbatim>\<open>undefined\<close>, or the error a send is rejected with.
\<close>

datatype 'e error = TypeError | TransportError 'e

text \<open>
  The effects of the handlers: the calls of \<^verbatim>\<open>sendMail\<close> in order, and the lines
  written by \<^verbatim>\<open>console.error\<close> (label and error object).
\<close>

record 'e effects =
  sent :: "mail list"
  console :: "(jsstring \<times> 'e error) list"

definition sendMail :: "'e transporter \<Rightarrow> mail \<Rightarrow> 'e effects \<Rightarrow> 'e outcome \<times> 'e effects" where
  "sendMail tr m w = (tr (sent w) m, w\<lparr>sent := sent w @ [m]\<rparr>)"

text \<open>
  A response: the status code (200 unless \<^verbatim>\<open>res.status\<close> sets it) and the object
  given to \<^verbatim>\<open>res.json\<close>, as its properties in order.
\<close>

datatype json = B bool | S jsstring

record response =
  status :: nat
  json :: "(string \<times> json) list"

subsection \<open>The two messages\<close>

definition phone_line :: "submission \<Rightarrow> jsstring" where
  \<comment> \<open>\<^verbatim>\<open>${phone ? `<p><strong>Phone:</strong> ${phone}</p>` : ''}\<close>\<close>
  "phone_line b =
     (if truthy (phone b)
      then js ''<p><strong>Phone:</strong> '' @ toString (phone b) @ js ''</p>''
      else js '''')"

definition message_line :: "submission \<Rightarrow> jsstring" where
  \<comment> \<open>\<^verbatim>\<open>${message ? `<p><strong>Message:</strong><br>${message}</p>` : ''}\<close>\<close>
  "message_line b =
     (if truthy (message b)
      then js ''<p><strong>Message:</strong><br>'' @ toString (message b) @ js ''</p>''
      else js '''')"

definition mailOptions :: "env \<Rightarrow> date \<Rightarrow> submission \<Rightarrow> mail" where
  "mailOptions e d b =
     \<lparr> from_addr = EMAIL_USER e,
       to_addr = js_or (RECIPIENT_EMAIL e) (Str (js ''hello@markgrow.com'')),
       subject = js ''New SEO Audit Request from '' @ toString (name b),
       html =
         js ''\<newline>                <h2>New Contact Form Submission</h2>''
         @ js ''\<newline>                <p><strong>Name:</strong> '' @ toString (name b) @ js ''</p>''
         @ js ''\<newline>                <p><strong>Email:</strong> '' @ toString (email b) @ js ''</p>''
         @ js ''\<newline>                <p><strong>Website:</strong> '' @ toString (website b) @ js ''</p>''
         @ js ''\<newline>                '' @ phone_line b
         @ js ''\<newline>                <p><strong>Service:</strong> ''
             @ toString (js_or (service b) (Str (js ''Not specified''))) @ js ''</p>''
         @ js ''\<newline>                '' @ message_line b
         @ js ''\<newline>                <hr>''
         @ js ''\<newline>                <p><small>Submitted: '' @ toLocaleString d @ js ''</small></p>''
         @ js ''\<newline>            '',
       replyTo = email b \<rparr>"

definition confirmationEmail :: "env \<Rightarrow> submission \<Rightarrow> mail" where
  "confirmationEmail e b =
     \<lparr> from_addr = EMAIL_USER e,
       to_addr = email b,
       subject = js ''Thank you for your SEO audit request - MarkGrow'',
       html =
         js ''\<newline>                <h2>Thank you, '' @ toString (name b) @ js ''!</h2>''
         @ js ''\<newline>                <p>We've received your request for a free SEO audit. Our team will review your website (<strong>''
             @ toString (website b)
             @ js ''</strong>) and send you a comprehensive report within 24 hours.</p>''
         @ js ''\<newline>                <p>If you have any questions, feel free to reply to this email.</p>''
         @ js ''\<newline>                <hr>''
         @ js ''\<newline>                <p><strong>MarkGrow Team</strong><br>''
         @ js ''\<newline>                ROI-Driven SEO Services</p>''
         @ js ''\<newline>            '',
       replyTo = Undefined \<rparr>"

subsection \<open>The handlers\<close>

definition missing_fields :: response where
  "missing_fields =
     \<lparr> status = 400,
       json = [(''success'', B False), (''error'', S (js ''Missing required fields''))] \<rparr>"

definition invalid_email :: response where
  "invalid_email =
     \<lparr> status = 400,
       json = [(''success'', B False), (''error'', S (js ''Invalid email address''))] \<rparr>"

definition submitted :: response where
  "submitted =
     \<lparr> status = 200,
       json = [(''success'', B True), (''message'', S (js ''Form submitted successfully''))] \<rparr>"

definition internal_error :: response where
  "internal_error =
     \<lparr> status = 500,
       json = [(''success'', B False),
               (''error'', S (js ''Internal server error. Please try again later.''))] \<rparr>"

definition catch_error :: "'e error \<Rightarrow> 'e effects \<Rightarrow> response option \<times> 'e effects" where
  \<comment> \<open>the \<^verbatim>\<open>catch (error)\<close> block\<close>
  "catch_error err w =
     (Some internal_error,
      w\<lparr>console := console w @ [(js ''Form submission error:'', err)]\<rparr>)"

text \<open>
  \<^verbatim>\<open>app.post('/api/submit-form', ...)\<close>. The whole body of the handler is inside
  \<^verbatim>\<open>try\<close>, the destructuring of \<^verbatim>\<open>req.body\<close> included: with no body it throws and
  the \<^verbatim>\<open>catch\<close> block answers. The result is the response, or \<open>None\<close> when the
  handler never responds (an awaited promise that is never settled), with the effects
  after the run.
\<close>

definition submit_form ::
  "'e transporter \<Rightarrow> env \<Rightarrow> date \<Rightarrow> submission option \<Rightarrow> 'e effects
     \<Rightarrow> response option \<times> 'e effects"
where
  "submit_form tr e d body w =
     (case body of
        None \<Rightarrow> catch_error TypeError w
      | Some b \<Rightarrow>
          if \<not> truthy (name b) \<or> \<not> truthy (email b) \<or> \<not> truthy (website b)
          then (Some missing_fields, w)
          else if \<not> test emailRegex (email b)
          then (Some invalid_email, w)
          else
            (case sendMail tr (mailOptions e d b) w of
               (Rejected err, w1) \<Rightarrow> catch_error (TransportError err) w1
             | (Pending, w1) \<Rightarrow> (None, w1)
             | (Resolved, w1) \<Rightarrow>
                 (case sendMail tr (confirmationEmail e b) w1 of
                    (Rejected err, w2) \<Rightarrow> catch_error (TransportError err) w2
                  | (Pending, w2) \<Rightarrow> (None, w2)
                  | (Resolved, w2) \<Rightarrow> (Some submitted, w2))))"

text \<open>
  \<^verbatim>\<open>app.get('/health', ...)\<close>. The handler is a closure of the same module, so the
  transporter and the environment are in its scope as they are in the other handler's.
\<close>

definition health ::
  "'e transporter \<Rightarrow> env \<Rightarrow> date \<Rightarrow> 'e effects \<Rightarrow> response option \<times> 'e effects"
where
  "health tr e d w =
     (Some \<lparr> status = 200,
             json = [(''status'', S (js ''ok'')), (''timestamp'', S (toISOString d))] \<rparr>,
      w)"

subsection \<open>Notions used to state the properties\<close>

text \<open>
  One or more code units that are neither white space nor \<^verbatim>\<open>@\<close>: the words in which
  the specification describes the three parts of an accepted address.
\<close>

definition plain :: "jsstring \<Rightarrow> bool" where
  "plain u = (u \<noteq> [] \<and> list_all (\<lambda>c. \<not> isWhiteSpace c \<and> c \<noteq> at_sign) u)"

text \<open>
  A well-formed ISO-8601 timestamp, as a checker: year (four digits, or a sign and six
  digits), month 01 to 12, day 01 to 31, \<^verbatim>\<open>T\<close>, hour 00 to 23, minute and second 00
  to 59, three digits of milliseconds, \<^verbatim>\<open>Z\<close>, and nothing after.
\<close>

definition is_digit :: "code_unit \<Rightarrow> bool" where
  "is_digit c = (0x30 \<le> c \<and> c \<le> 0x39)"

definition number :: "jsstring \<Rightarrow> nat" where
  "number cs = foldl (\<lambda>a c. 10 * a + unat (c - 0x30)) 0 cs"

definition field :: "nat \<Rightarrow> nat \<Rightarrow> nat \<Rightarrow> jsstring \<Rightarrow> jsstring option" where
  "field k lo hi s =
     (if k \<le> length s \<and> list_all is_digit (take k s)
         \<and> lo \<le> number (take k s) \<and> number (take k s) \<le> hi
      then Some (drop k s) else None)"

definition expect :: "code_unit \<Rightarrow> jsstring \<Rightarrow> jsstring option" where
  "expect c s = (case s of [] \<Rightarrow> None | x # r \<Rightarrow> if x = c then Some r else None)"

definition year_field :: "jsstring \<Rightarrow> jsstring option" where
  "year_field s =
     (case s of
        [] \<Rightarrow> None
      | c # r \<Rightarrow> if c = 0x2B \<or> c = 0x2D then field 6 0 999999 r else field 4 0 9999 s)"

fun parse :: "(jsstring \<Rightarrow> jsstring option) list \<Rightarrow> jsstring \<Rightarrow> jsstring option" where
  "parse [] s = Some s"
| "parse (p # ps) s = (case p s of None \<Rightarrow> None | Some r \<Rightarrow> parse ps r)"

definition iso8601 :: "jsstring \<Rightarrow> bool" where
  "iso8601 s =
     (parse [year_field, expect 0x2D, field 2 1 12, expect 0x2D, field 2 1 31,
             expect 0x54, field 2 0 23, expect 0x3A, field 2 0 59, expect 0x3A, field 2 0 59,
             expect 0x2E, field 3 0 999, expect 0x5A] s = Some [])"


text \<open>
  A valid submission: the two guards of the handler both let it through.
\<close>

definition valid :: "submission \<Rightarrow> bool" where
  "valid b = (truthy (name b) \<and> truthy (email b) \<and> truthy (website b) \<and> test emailRegex (email b))"

subsection \<open>Example inputs\<close>

text \<open>
  The submission of the specification and the empty object; the \<^verbatim>\<open>.env\<close> of the
  source's closing comment,
  one with an empty \<^verbatim>\<open>RECIPIENT_EMAIL=\<close> line and one with another recipient; two
  clock readings; the effects of a server that has done nothing yet and of one that has
  served one request; and three transports.
\<close>

definition john :: submission where
  "john =
     \<lparr> name = Str (js ''John Smith''),
       email = Str (js ''john@company.com''),
       website = Str (js ''https://example.com''),
       phone = Undefined,
       service = Str (js ''on-page''),
       message = Undefined \<rparr>"

definition empty_object :: submission where
  \<comment> \<open>the body \<^verbatim>\<open>{}\<close>\<close>
  "empty_object =
     \<lparr> name = Undefined, email = Undefined, website = Undefined,
       phone = Undefined, service = Undefined, message = Undefined \<rparr>"

definition example_env :: env where
  "example_env =
     \<lparr> EMAIL_USER = Str (js ''your-email@gmail.com''),
       RECIPIENT_EMAIL = Str (js ''hello@markgrow.com'') \<rparr>"

definition empty_recipient :: env where
  "empty_recipient =
     \<lparr> EMAIL_USER = Str (js ''your-email@gmail.com''), RECIPIENT_EMAIL = Str [] \<rparr>"

definition a_date :: date where
  "a_date =
     \<lparr> time_value = 1793647200000, toLocaleString = js ''11/2/2026, 7:20:00 PM'' \<rparr>"

definition nothing_yet :: "jsstring effects" where
  "nothing_yet = \<lparr> sent = [], console = [] \<rparr>"

definition always_resolves :: "jsstring transporter" where
  "always_resolves h m = Resolved"

definition always_rejects :: "jsstring transporter" where
  "always_rejects h m = Rejected (js ''ECONNREFUSED'')"

definition rejects_confirmation :: "jsstring transporter" where
  "rejects_confirmation h m = (if replyTo m = Undefined then Rejected (js ''EENVELOPE'') else Resolved)"

definition a_moment_later :: date where
  "a_moment_later =
     \<lparr> time_value = 1793647205000, toLocaleString = js ''11/2/2026, 7:20:05 PM'' \<rparr>"

definition one_request_served :: "jsstring effects" where
  "one_request_served =
     \<lparr> sent = [mailOptions example_env a_date john, confirmationEmail example_env john],
       console = [] \<rparr>"

definition custom_recipient :: env where
  "custom_recipient =
     \<lparr> EMAIL_USER = Str (js ''your-email@gmail.com''),
       RECIPIENT_EMAIL = Str (js ''leads@example.com'') \<rparr>"

section \<open>Properties\<close>

subsection \<open>Values and the address pattern\<close>

lemma truthy_iff: "truthy v \<longleftrightarrow> (\<exists>s. v = Str s \<and> s \<noteq> [])"
  by (cases v) simp_all

lemma falsy_iff: "\<not> truthy v \<longleftrightarrow> v = Undefined \<or> v = Null \<or> v = Str []"
  by (cases v) simp_all

lemma matches_Single_iff:
  "matches (Single a # ps) s \<longleftrightarrow> (\<exists>c v. s = c # v \<and> atom_matches a c \<and> matches ps v)"
  by (cases s) simp_all

lemma matches_OneOrMore_iff:
  "matches (OneOrMore a # ps) s \<longleftrightarrow>
     (\<exists>u v. s = u @ v \<and> u \<noteq> [] \<and> list_all (atom_matches a) u \<and> matches ps v)"
proof (induction s)
  case Nil
  show ?case by simp
next
  case (Cons c cs)
  show ?case
  proof
    assume m: "matches (OneOrMore a # ps) (c # cs)"
    then have c: "atom_matches a c" by simp
    from m consider "matches (OneOrMore a # ps) cs" | "matches ps cs" by auto
    then show "\<exists>u v. c # cs = u @ v \<and> u \<noteq> [] \<and> list_all (atom_matches a) u \<and> matches ps v"
    proof cases
      case 1
      with Cons.IH obtain u v where "cs = u @ v" "list_all (atom_matches a) u" "matches ps v"
        by blast
      with c have "c # cs = (c # u) @ v \<and> c # u \<noteq> [] \<and> list_all (atom_matches a) (c # u) \<and> matches ps v"
        by simp
      then show ?thesis by blast
    next
      case 2
      with c have "c # cs = [c] @ cs \<and> [c] \<noteq> [] \<and> list_all (atom_matches a) [c] \<and> matches ps cs"
        by simp
      then show ?thesis by blast
    qed
  next
    assume "\<exists>u v. c # cs = u @ v \<and> u \<noteq> [] \<and> list_all (atom_matches a) u \<and> matches ps v"
    then obtain u v where uv: "c # cs = u @ v" "u \<noteq> []" "list_all (atom_matches a) u" "matches ps v"
      by blast
    then obtain u' where u: "u = c # u'" by (cases u) auto
    with uv have cs: "cs = u' @ v" and c: "atom_matches a c" and u': "list_all (atom_matches a) u'"
      by simp_all
    show "matches (OneOrMore a # ps) (c # cs)"
    proof (cases "u' = []")
      case True
      with cs uv c show ?thesis by simp
    next
      case False
      with cs u' uv Cons.IH have "matches (OneOrMore a # ps) cs" by blast
      with c show ?thesis by simp
    qed
  qed
qed

lemma atom_not_space_or_at:
  "atom_matches not_space_or_at c \<longleftrightarrow> \<not> isWhiteSpace c \<and> c \<noteq> at_sign"
  by (simp add: not_space_or_at_def)

lemma not_space_or_at_fun:
  "atom_matches not_space_or_at = (\<lambda>c. \<not> isWhiteSpace c \<and> c \<noteq> at_sign)"
  by (rule ext) (rule atom_not_space_or_at)

lemma matches_plus_plain:
  "matches (OneOrMore not_space_or_at # ps) s \<longleftrightarrow> (\<exists>u v. s = u @ v \<and> plain u \<and> matches ps v)"
  by (simp add: matches_OneOrMore_iff not_space_or_at_fun plain_def)

lemma matches_literal:
  "matches (Single (Literal x) # ps) s \<longleftrightarrow> (\<exists>v. s = x # v \<and> matches ps v)"
  by (auto simp add: matches_Single_iff)

lemma matches_emailRegex_iff:
  "matches emailRegex s \<longleftrightarrow>
     (\<exists>l d t. s = l @ at_sign # d @ full_stop # t \<and> plain l \<and> plain d \<and> plain t)"
proof
  assume "matches emailRegex s"
  then show "\<exists>l d t. s = l @ at_sign # d @ full_stop # t \<and> plain l \<and> plain d \<and> plain t"
    unfolding emailRegex_def matches_plus_plain matches_literal by auto
next
  assume "\<exists>l d t. s = l @ at_sign # d @ full_stop # t \<and> plain l \<and> plain d \<and> plain t"
  then obtain l d t where s: "s = l @ at_sign # d @ full_stop # t"
    and p: "plain l" "plain d" "plain t"
    by blast
  from p(3) have "matches [OneOrMore not_space_or_at] t"
    unfolding matches_plus_plain by simp
  then have "matches [Single (Literal full_stop), OneOrMore not_space_or_at] (full_stop # t)"
    by simp
  with p(2) have "matches [OneOrMore not_space_or_at, Single (Literal full_stop),
      OneOrMore not_space_or_at] (d @ full_stop # t)"
    unfolding matches_plus_plain [of _ "d @ full_stop # t"] by blast
  then have "matches [Single (Literal at_sign), OneOrMore not_space_or_at,
      Single (Literal full_stop), OneOrMore not_space_or_at] (at_sign # d @ full_stop # t)"
    by simp
  with p(1) show "matches emailRegex s"
    unfolding emailRegex_def s matches_plus_plain [of _ "l @ at_sign # d @ full_stop # t"]
    by blast
qed

lemma plain_no_at: "plain u \<Longrightarrow> at_sign \<notin> set u"
  by (auto simp: plain_def list_all_iff)

lemma plain_no_space: "plain u \<Longrightarrow> c \<in> set u \<Longrightarrow> \<not> isWhiteSpace c"
  by (auto simp: plain_def list_all_iff)

lemma full_stop_not_at: "full_stop \<noteq> at_sign" "\<not> isWhiteSpace full_stop" "\<not> isWhiteSpace at_sign"
  by (simp_all add: full_stop_def at_sign_def isWhiteSpace_def)

lemma matches_emailRegex_one_at:
  assumes "matches emailRegex s"
  shows "count_list s at_sign = 1"
proof -
  from assms obtain l d t where s: "s = l @ at_sign # d @ full_stop # t"
    and p: "plain l" "plain d" "plain t"
    unfolding matches_emailRegex_iff by blast
  from p have "count_list l at_sign = 0" "count_list d at_sign = 0" "count_list t at_sign = 0"
    by (simp_all add: count_list_0_iff plain_no_at)
  then show ?thesis
    using full_stop_not_at(1) by (simp add: s)
qed

lemma matches_emailRegex_no_space:
  assumes "matches emailRegex s" "c \<in> set s"
  shows "\<not> isWhiteSpace c"
proof -
  from assms obtain l d t where s: "s = l @ at_sign # d @ full_stop # t"
    and p: "plain l" "plain d" "plain t"
    unfolding matches_emailRegex_iff by blast
  from assms(2) s have "c \<in> set l \<or> c \<in> set d \<or> c \<in> set t \<or> c = at_sign \<or> c = full_stop"
    by auto
  with p show ?thesis
    using full_stop_not_at plain_no_space by blast
qed

lemma matches_emailRegex_dot_after_at:
  assumes "matches emailRegex s" "s = l @ at_sign # r"
  shows "full_stop \<in> set r"
proof -
  from assms obtain l' d t where s: "s = l' @ at_sign # d @ full_stop # t"
    and p: "plain l'" "plain d" "plain t"
    unfolding matches_emailRegex_iff by blast
  have "at_sign \<notin> set l'" using p(1) by (rule plain_no_at)
  moreover have "at_sign \<notin> set (d @ full_stop # t)"
    using p(2,3) full_stop_not_at(1) by (auto dest: plain_no_at)
  moreover from s assms(2) have "l @ at_sign # r = l' @ at_sign # (d @ full_stop # t)" by simp
  ultimately have "r = d @ full_stop # t \<or> at_sign \<in> set l' \<or> at_sign \<in> set (d @ full_stop # t)"
    by (auto simp: append_eq_append_conv2 append_eq_Cons_conv Cons_eq_append_conv)
  with \<open>at_sign \<notin> set l'\<close> \<open>at_sign \<notin> set (d @ full_stop # t)\<close> show ?thesis by auto
qed

subsection \<open>The handler, branch by branch\<close>

lemma submit_form_no_body:
  "submit_form tr e now None w =
     (Some internal_error,
      w\<lparr>console := console w @ [(js ''Form submission error:'', TypeError)]\<rparr>)"
  by (simp add: submit_form_def catch_error_def)

lemma submit_form_missing:
  "\<not> truthy (name b) \<or> \<not> truthy (email b) \<or> \<not> truthy (website b) \<Longrightarrow>
     submit_form tr e now (Some b) w = (Some missing_fields, w)"
  by (simp add: submit_form_def)

lemma submit_form_invalid:
  "truthy (name b) \<Longrightarrow> truthy (email b) \<Longrightarrow> truthy (website b) \<Longrightarrow>
     \<not> test emailRegex (email b) \<Longrightarrow>
     submit_form tr e now (Some b) w = (Some invalid_email, w)"
  by (simp add: submit_form_def)

lemma submit_form_first_rejected:
  "valid b \<Longrightarrow> tr (sent w) (mailOptions e now b) = Rejected err \<Longrightarrow>
     submit_form tr e now (Some b) w =
       (Some internal_error,
        w\<lparr>sent := sent w @ [mailOptions e now b],
          console := console w @ [(js ''Form submission error:'', TransportError err)]\<rparr>)"
  by (simp add: submit_form_def valid_def sendMail_def catch_error_def)

lemma submit_form_first_pending:
  "valid b \<Longrightarrow> tr (sent w) (mailOptions e now b) = Pending \<Longrightarrow>
     submit_form tr e now (Some b) w = (None, w\<lparr>sent := sent w @ [mailOptions e now b]\<rparr>)"
  by (simp add: submit_form_def valid_def sendMail_def)

lemma submit_form_second_rejected:
  "valid b \<Longrightarrow> tr (sent w) (mailOptions e now b) = Resolved \<Longrightarrow>
     tr (sent w @ [mailOptions e now b]) (confirmationEmail e b) = Rejected err \<Longrightarrow>
     submit_form tr e now (Some b) w =
       (Some internal_error,
        w\<lparr>sent := sent w @ [mailOptions e now b, confirmationEmail e b],
          console := console w @ [(js ''Form submission error:'', TransportError err)]\<rparr>)"
  by (simp add: submit_form_def valid_def sendMail_def catch_error_def)

lemma submit_form_second_pending:
  "valid b \<Longrightarrow> tr (sent w) (mailOptions e now b) = Resolved \<Longrightarrow>
     tr (sent w @ [mailOptions e now b]) (confirmationEmail e b) = Pending \<Longrightarrow>
     submit_form tr e now (Some b) w =
       (None, w\<lparr>sent := sent w @ [mailOptions e now b, confirmationEmail e b]\<rparr>)"
  by (simp add: submit_form_def valid_def sendMail_def)

lemma submit_form_both_resolved:
  "valid b \<Longrightarrow> tr (sent w) (mailOptions e now b) = Resolved \<Longrightarrow>
     tr (sent w @ [mailOptions e now b]) (confirmationEmail e b) = Resolved \<Longrightarrow>
     submit_form tr e now (Some b) w =
       (Some submitted, w\<lparr>sent := sent w @ [mailOptions e now b, confirmationEmail e b]\<rparr>)"
  by (simp add: submit_form_def valid_def sendMail_def)

lemma valid_john: "valid john"
  by code_simp

text \<open>
  C1. A submission whose name, email and website are all truthy (non-empty text) and whose
  email matches the address pattern, with both transport calls fulfilled: the handler
  calls the transport exactly twice, first with the notification \<open>mailOptions\<close>, then
  with \<open>confirmationEmail\<close>, logs nothing, and responds 200 with
  \<^verbatim>\<open>{success: true, message: 'Form submitted successfully'}\<close>. The witness is the
  submission of the specification (John Smith, john@company.com, https://example.com).
\<close>
theorem valid_submission_sends_both:
  assumes "truthy (name b)" and "truthy (email b)" and "truthy (website b)"
    and "test emailRegex (email b)"
    and "tr (sent w) (mailOptions e now b) = Resolved"
    and "tr (sent w @ [mailOptions e now b]) (confirmationEmail e b) = Resolved"
  shows "submit_form tr e now (Some b) w =
    (Some \<lparr> status = 200,
            json = [(''success'', B True), (''message'', S (js ''Form submitted successfully''))] \<rparr>,
     w\<lparr>sent := sent w @ [mailOptions e now b, confirmationEmail e b]\<rparr>)"
  using assms submit_form_both_resolved [of b tr w e now] by (simp add: valid_def submitted_def)

theorem valid_submission_sends_both_witness:
  "submit_form always_resolves example_env a_date (Some john) nothing_yet =
    (Some \<lparr> status = 200,
            json = [(''success'', B True), (''message'', S (js ''Form submitted successfully''))] \<rparr>,
     \<lparr> sent = [mailOptions example_env a_date john, confirmationEmail example_env john],
       console = [] \<rparr>)"
proof -
  have v: "truthy (name john)" "truthy (email john)" "truthy (website john)"
    "test emailRegex (email john)"
    using valid_john by (simp_all add: valid_def)
  have r: "always_resolves (sent nothing_yet) (mailOptions example_env a_date john) = Resolved"
    "always_resolves (sent nothing_yet @ [mailOptions example_env a_date john])
       (confirmationEmail example_env john) = Resolved"
    by (simp_all add: always_resolves_def)
  show ?thesis
    using valid_submission_sends_both [OF v r] by (simp add: nothing_yet_def)
qed


lemma bad_email_rejected:
  assumes "\<not> test emailRegex (email b)"
  shows "submit_form tr e now (Some b) w = (Some missing_fields, w)
       \<or> submit_form tr e now (Some b) w = (Some invalid_email, w)"
  using assms by (simp add: submit_form_def)

text \<open>
  A request with a parsed body in which name, email or website is falsy (missing,
  \<^verbatim>\<open>null\<close> or the empty string, see \<open>falsy_iff\<close>) is answered 400 with
  \<^verbatim>\<open>{success: false, error: 'Missing required fields'}\<close> and the effects are unchanged:
  nothing is sent and nothing is logged. A request with no parsed body makes no
  transport call either.
\<close>
lemma parsed_body_missing_field_rejected:
  "(\<not> truthy (name b) \<or> \<not> truthy (email b) \<or> \<not> truthy (website b) \<longrightarrow>
      submit_form tr e now (Some b) w =
        (Some \<lparr> status = 400,
                json = [(''success'', B False), (''error'', S (js ''Missing required fields''))] \<rparr>,
         w))
   \<and> sent (snd (submit_form tr e now None w)) = sent w"
  using submit_form_missing [of b tr e now w]
  by (simp add: missing_fields_def submit_form_no_body)

text \<open>
  C2 says that every submission in which name, email or website is missing is answered
  400 with no side effect. The handler does so for the parsed body \<^verbatim>\<open>{}\<close>, through
  the check of the required fields. For a request with no parsed body, in which the
  same fields are missing, it does not: \<^verbatim>\<open>const { name, ... } = req.body\<close> throws
  inside \<^verbatim>\<open>try\<close> before that check is reached, and the \<^verbatim>\<open>catch\<close> block logs the
  \<^verbatim>\<open>TypeError\<close> and answers 500.
\<close>
theorem absent_body_answers_500:
  "submit_form always_resolves example_env a_date None nothing_yet =
    (Some \<lparr> status = 500,
            json = [(''success'', B False),
                    (''error'', S (js ''Internal server error. Please try again later.''))] \<rparr>,
     \<lparr> sent = [], console = [(js ''Form submission error:'', TypeError)] \<rparr>)
   \<and> submit_form always_resolves example_env a_date (Some empty_object) nothing_yet =
    (Some \<lparr> status = 400,
            json = [(''success'', B False), (''error'', S (js ''Missing required fields''))] \<rparr>,
     nothing_yet)"
  by (simp add: submit_form_no_body submit_form_missing internal_error_def missing_fields_def
      nothing_yet_def empty_object_def)

theorem absent_body_answers_500_witness:
  "status (the (fst (submit_form always_resolves example_env a_date None nothing_yet))) = 500
   \<and> status (the (fst (submit_form always_resolves example_env a_date (Some empty_object)
          nothing_yet))) = 400
   \<and> console (snd (submit_form always_resolves example_env a_date None nothing_yet)) =
       [(js ''Form submission error:'', TypeError)]"
  using absent_body_answers_500 by simp

text \<open>
  C3. A submission whose email does not match the address pattern is answered 400 with
  \<^verbatim>\<open>{success: false, error: <text>}\<close> and leaves the effects unchanged (no transport
  call); when name, email and website are all present (truthy), the error text is
  \<^verbatim>\<open>'Invalid email address'\<close>.
\<close>
theorem malformed_email_rejected:
  assumes "\<not> test emailRegex (email b)"
  shows "(\<exists>msg. submit_form tr e now (Some b) w =
            (Some \<lparr> status = 400, json = [(''success'', B False), (''error'', S msg)] \<rparr>, w))
       \<and> (truthy (name b) \<and> truthy (email b) \<and> truthy (website b) \<longrightarrow>
            submit_form tr e now (Some b) w =
              (Some \<lparr> status = 400,
                      json = [(''success'', B False), (''error'', S (js ''Invalid email address''))] \<rparr>,
               w))"
proof
  from bad_email_rejected [OF assms, of tr e now w]
  show "\<exists>msg. submit_form tr e now (Some b) w =
            (Some \<lparr> status = 400, json = [(''success'', B False), (''error'', S msg)] \<rparr>, w)"
    by (auto simp: missing_fields_def invalid_email_def)
next
  show "truthy (name b) \<and> truthy (email b) \<and> truthy (website b) \<longrightarrow>
            submit_form tr e now (Some b) w =
              (Some \<lparr> status = 400,
                      json = [(''success'', B False), (''error'', S (js ''Invalid email address''))] \<rparr>,
               w)"
    using assms submit_form_invalid [of b tr e now w] by (simp add: invalid_email_def)
qed

lemma not_an_email: "\<not> test emailRegex (Str (js ''not-an-email''))"
  by code_simp

theorem malformed_email_rejected_witness:
  "submit_form always_resolves example_env a_date (Some (john\<lparr>email := Str (js ''not-an-email'')\<rparr>))
     nothing_yet =
    (Some \<lparr> status = 400,
            json = [(''success'', B False), (''error'', S (js ''Invalid email address''))] \<rparr>,
     nothing_yet)"
proof -
  have "\<not> test emailRegex (email (john\<lparr>email := Str (js ''not-an-email'')\<rparr>))"
    using not_an_email by simp
  from malformed_email_rejected [OF this, of always_resolves example_env a_date nothing_yet]
  show ?thesis by (simp add: john_def js_def)
qed

text \<open>
  C4. For a valid submission, when the notification send is rejected, or the notification
  send is fulfilled and the confirmation send is rejected, the response is 500 with the
  fixed body \<^verbatim>\<open>{success: false, error: 'Internal server error. Please try again later.'}\<close>,
  the same in both cases and whatever the error is; the error itself goes to
  \<^verbatim>\<open>console.error\<close> only.
\<close>
theorem transport_failure_is_generic_500:
  assumes "valid b"
    and "tr (sent w) (mailOptions e now b) = Rejected err
       \<or> (tr (sent w) (mailOptions e now b) = Resolved
          \<and> tr (sent w @ [mailOptions e now b]) (confirmationEmail e b) = Rejected err)"
  shows "fst (submit_form tr e now (Some b) w) =
      Some \<lparr> status = 500,
             json = [(''success'', B False),
                     (''error'', S (js ''Internal server error. Please try again later.''))] \<rparr>
    \<and> console (snd (submit_form tr e now (Some b) w)) =
        console w @ [(js ''Form submission error:'', TransportError err)]"
  using assms(2)
proof
  assume "tr (sent w) (mailOptions e now b) = Rejected err"
  with assms(1) show ?thesis
    by (simp add: submit_form_first_rejected internal_error_def)
next
  assume "tr (sent w) (mailOptions e now b) = Resolved
    \<and> tr (sent w @ [mailOptions e now b]) (confirmationEmail e b) = Rejected err"
  with assms(1) show ?thesis
    by (simp add: submit_form_second_rejected internal_error_def)
qed

lemma confirmation_has_no_replyTo: "replyTo (confirmationEmail e b) = Undefined"
  by (simp add: confirmationEmail_def)

lemma notification_replyTo: "replyTo (mailOptions e now b) = email b"
  by (simp add: mailOptions_def)

theorem transport_failure_is_generic_500_witness:
  "fst (submit_form always_rejects example_env a_date (Some john) nothing_yet) =
     fst (submit_form rejects_confirmation example_env a_date (Some john) nothing_yet)
   \<and> console (snd (submit_form always_rejects example_env a_date (Some john) nothing_yet)) =
       [(js ''Form submission error:'', TransportError (js ''ECONNREFUSED''))]
   \<and> console (snd (submit_form rejects_confirmation example_env a_date (Some john) nothing_yet)) =
       [(js ''Form submission error:'', TransportError (js ''EENVELOPE''))]"
proof -
  have 1: "always_rejects (sent nothing_yet) (mailOptions example_env a_date john)
             = Rejected (js ''ECONNREFUSED'')
         \<or> (always_rejects (sent nothing_yet) (mailOptions example_env a_date john) = Resolved
            \<and> always_rejects (sent nothing_yet @ [mailOptions example_env a_date john])
                 (confirmationEmail example_env john) = Rejected (js ''ECONNREFUSED''))"
    by (simp add: always_rejects_def)
  have 2: "rejects_confirmation (sent nothing_yet) (mailOptions example_env a_date john)
             = Rejected (js ''EENVELOPE'')
         \<or> (rejects_confirmation (sent nothing_yet) (mailOptions example_env a_date john) = Resolved
            \<and> rejects_confirmation (sent nothing_yet @ [mailOptions example_env a_date john])
                 (confirmationEmail example_env john) = Rejected (js ''EENVELOPE''))"
    by (simp add: rejects_confirmation_def confirmation_has_no_replyTo notification_replyTo
        john_def)
  show ?thesis
    using transport_failure_is_generic_500 [OF valid_john 1]
      transport_failure_is_generic_500 [OF valid_john 2]
    by (simp add: nothing_yet_def)
qed

text \<open>
  C5. For a valid submission, when the notification send is rejected, the request makes
  that one transport call only (the confirmation is never attempted) and is answered
  with status 500.
\<close>
theorem first_failure_short_circuits:
  assumes "valid b" and "tr (sent w) (mailOptions e now b) = Rejected err"
  shows "sent (snd (submit_form tr e now (Some b) w)) = sent w @ [mailOptions e now b]
    \<and> (\<exists>r. fst (submit_form tr e now (Some b) w) = Some r \<and> status r = 500)"
  using assms by (simp add: submit_form_first_rejected internal_error_def)

theorem first_failure_short_circuits_witness:
  "sent (snd (submit_form always_rejects example_env a_date (Some john) nothing_yet)) =
     [mailOptions example_env a_date john]
   \<and> (\<exists>r. fst (submit_form always_rejects example_env a_date (Some john) nothing_yet) = Some r
          \<and> status r = 500)"
proof -
  have "always_rejects (sent nothing_yet) (mailOptions example_env a_date john)
          = Rejected (js ''ECONNREFUSED'')"
    by (simp add: always_rejects_def)
  from first_failure_short_circuits [where tr = always_rejects and w = nothing_yet
      and e = example_env and now = a_date, OF valid_john this]
  show ?thesis by (simp add: nothing_yet_def)
qed

subsection \<open>The clock\<close>

text \<open>
  The year computed by \<open>YearFromTime\<close> is the one ECMAScript defines, every calendar
  field is in its range, and so the string of \<open>toISOString\<close> passes the checker
  \<open>iso8601\<close> for every time value a Date can hold.
\<close>

lemma div_step:
  fixes x c :: int
  assumes "1 < c"
  shows "(x + 1) div c = x div c + (if c dvd (x + 1) then 1 else 0)"
proof -
  have e: "(x + 1) div c = x div c + 1 div c + (x mod c + 1 mod c) div c"
    by (rule div_add1_eq)
  from assms have s: "1 div c = 0" "1 mod c = 1" by simp_all
  from assms have r: "0 \<le> x mod c" "x mod c < c" by simp_all
  have "c dvd (x + 1) \<longleftrightarrow> (x mod c + 1) mod c = 0"
    by (simp add: dvd_eq_mod_eq_0 mod_add_left_eq)
  also have "\<dots> \<longleftrightarrow> x mod c + 1 = c"
  proof
    assume z: "(x mod c + 1) mod c = 0"
    show "x mod c + 1 = c"
    proof (rule ccontr)
      assume "x mod c + 1 \<noteq> c"
      with r have "x mod c + 1 < c" by simp
      with r have "(x mod c + 1) mod c = x mod c + 1" by simp
      with z r show False by simp
    qed
  next
    assume "x mod c + 1 = c"
    then show "(x mod c + 1) mod c = 0" by simp
  qed
  finally have d: "c dvd (x + 1) \<longleftrightarrow> x mod c + 1 = c" .
  have "(x mod c + 1) div c = (if c dvd (x + 1) then 1 else 0)"
  proof (cases "x mod c + 1 = c")
    case True
    with d assms show ?thesis by simp
  next
    case False
    with r have "x mod c + 1 < c" by simp
    with r d False show ?thesis by simp
  qed
  with e s show ?thesis by simp
qed

lemma dvd_chain:
  fixes y :: int
  shows "400 dvd y \<Longrightarrow> 100 dvd y" and "100 dvd y \<Longrightarrow> 4 dvd y"
proof -
  have "(100::int) dvd 400" "(4::int) dvd 100" by simp_all
  then show "400 dvd y \<Longrightarrow> 100 dvd y" and "100 dvd y \<Longrightarrow> 4 dvd y"
    using dvd_trans by blast+
qed

lemma year_steps:
  fixes y :: int
  shows "(y + 1 - 1969) div 4 = (y - 1969) div 4 + (if 4 dvd y then 1 else 0)"
    and "(y + 1 - 1901) div 100 = (y - 1901) div 100 + (if 100 dvd y then 1 else 0)"
    and "(y + 1 - 1601) div 400 = (y - 1601) div 400 + (if 400 dvd y then 1 else 0)"
proof -
  have "(4::int) dvd (y - 1969 + 1) \<longleftrightarrow> 4 dvd y"
    using dvd_diff_left_iff [of 4 1968 y] by simp
  then show "(y + 1 - 1969) div 4 = (y - 1969) div 4 + (if 4 dvd y then 1 else 0)"
    using div_step [of 4 "y - 1969"] by (simp add: algebra_simps)
  have "(100::int) dvd (y - 1901 + 1) \<longleftrightarrow> 100 dvd y"
    using dvd_diff_left_iff [of 100 1900 y] by simp
  then show "(y + 1 - 1901) div 100 = (y - 1901) div 100 + (if 100 dvd y then 1 else 0)"
    using div_step [of 100 "y - 1901"] by (simp add: algebra_simps)
  have "(400::int) dvd (y - 1601 + 1) \<longleftrightarrow> 400 dvd y"
    using dvd_diff_left_iff [of 400 1600 y] by simp
  then show "(y + 1 - 1601) div 400 = (y - 1601) div 400 + (if 400 dvd y then 1 else 0)"
    using div_step [of 400 "y - 1601"] by (simp add: algebra_simps)
qed

lemma DaysInYear_dvd:
  "DaysInYear y =
     (if \<not> 4 dvd y then 365 else if \<not> 100 dvd y then 366 else if \<not> 400 dvd y then 365 else 366)"
  by (simp only: DaysInYear_def dvd_eq_mod_eq_0)

lemma DayFromYear_Suc: "DayFromYear (y + 1) = DayFromYear y + DaysInYear y"
proof -
  have "DayFromYear (y + 1) =
      365 * (y - 1970) + 365 + (y + 1 - 1969) div 4 - (y + 1 - 1901) div 100 + (y + 1 - 1601) div 400"
    by (simp add: DayFromYear_def)
  also have "\<dots> = DayFromYear y + ((if 4 dvd y then 1 else 0) - (if 100 dvd y then 1 else 0)
      + (if 400 dvd y then 1 else 0) + 365)"
    unfolding year_steps DayFromYear_def by simp
  also have "(if 4 dvd y then 1 else 0) - (if 100 dvd y then 1 else 0)
      + (if 400 dvd y then 1 else 0) + 365 = DaysInYear y"
    unfolding DaysInYear_dvd using dvd_chain [of y] by auto
  finally show ?thesis .
qed

lemma DaysInYear_cases: "DaysInYear y = 365 \<or> DaysInYear y = 366"
  by (simp add: DaysInYear_def)

lemma DayFromYear_less: "DayFromYear y < DayFromYear (y + 1)"
  unfolding DayFromYear_Suc using DaysInYear_cases [of y] by auto

lemma DayFromYear_pred: "DayFromYear (y - 1) < DayFromYear y"
  using DayFromYear_less [of "y - 1"] by simp

lemma floor_bounds:
  fixes x c :: int
  assumes "0 < c"
  shows "c * (x div c) \<le> x" and "x < c * (x div c) + c"
  using assms pos_mod_sign [of c x] pos_mod_bound [of c x] mult_div_mod_eq [of c x]
  by linarith+

lemma year_upper:
  assumes "DayFromYear y \<le> 100000000"
  shows "y \<le> 300000"
proof -
  define A B C where "A = (y - 1969) div 4" and "B = (y - 1901) div 100" and "C = (y - 1601) div 400"
  have a: "y - 1969 < 4 * A + 4" unfolding A_def by (rule floor_bounds) simp
  have b: "100 * B \<le> y - 1901" unfolding B_def by (rule floor_bounds) simp
  have c: "y - 1601 < 400 * C + 400" unfolding C_def by (rule floor_bounds) simp
  from assms have "365 * (y - 1970) + A - B + C \<le> 100000000"
    by (simp add: DayFromYear_def A_def B_def C_def)
  with a b c show ?thesis by simp
qed

lemma year_lower:
  assumes "- 100000000 \<le> DayFromYear y"
  shows "- 300000 \<le> y"
proof -
  define A B C where "A = (y - 1969) div 4" and "B = (y - 1901) div 100" and "C = (y - 1601) div 400"
  have a: "4 * A \<le> y - 1969" unfolding A_def by (rule floor_bounds) simp
  have b: "y - 1901 < 100 * B + 100" unfolding B_def by (rule floor_bounds) simp
  have c: "400 * C \<le> y - 1601" unfolding C_def by (rule floor_bounds) simp
  from assms have "- 100000000 \<le> 365 * (y - 1970) + A - B + C"
    by (simp add: DayFromYear_def A_def B_def C_def)
  with a b c show ?thesis by simp
qed

lemma year_estimate:
  fixes day :: int
  defines "y \<equiv> 1970 + (400 * day) div 146097"
  shows "DayFromYear (y - 1) \<le> day" and "day < DayFromYear (y + 2)"
proof -
  define q where "q = (400 * day) div 146097"
  have q: "146097 * q \<le> 400 * day" "400 * day < 146097 * q + 146097"
    unfolding q_def by (rule floor_bounds, simp)+
  have y: "y = 1970 + q" by (simp add: y_def q_def)
  define A B C where "A = (q - 1 + 1) div 4" and "B = (q - 1 + 69) div 100"
    and "C = (q - 1 + 369) div 400"
  have a: "4 * A \<le> q" unfolding A_def using floor_bounds(1) [of 4 "q - 1 + 1"] by simp
  have b: "q + 68 < 100 * B + 100" unfolding B_def using floor_bounds(2) [of 100 "q - 1 + 69"] by simp
  have c: "400 * C \<le> q + 368" unfolding C_def using floor_bounds(1) [of 400 "q - 1 + 369"] by simp
  have "DayFromYear (y - 1) = 365 * (q - 1) + A - B + C"
    by (simp add: DayFromYear_def y A_def B_def C_def)
  with q a b c show "DayFromYear (y - 1) \<le> day" by simp
  define A' B' C' where "A' = (q + 2 + 1) div 4" and "B' = (q + 2 + 69) div 100"
    and "C' = (q + 2 + 369) div 400"
  have a': "q + 3 < 4 * A' + 4" unfolding A'_def using floor_bounds(2) [of 4 "q + 2 + 1"] by simp
  have b': "100 * B' \<le> q + 71" unfolding B'_def using floor_bounds(1) [of 100 "q + 2 + 69"] by simp
  have c': "q + 371 < 400 * C' + 400" unfolding C'_def using floor_bounds(2) [of 400 "q + 2 + 369"] by simp
  have "DayFromYear (y + 2) = 365 * (q + 2) + A' - B' + C'"
    by (simp add: DayFromYear_def y A'_def B'_def C'_def)
  with q a' b' c' show "day < DayFromYear (y + 2)" by simp
qed

lemma digit_is_digit:
  assumes "0 \<le> n" "n \<le> 9"
  shows "is_digit (digit n)" and "unat (digit n - 0x30) = nat n"
    and "digit n \<noteq> 0x2B" and "digit n \<noteq> 0x2D"
proof -
  from assms have "n = 9 \<or> n = 8 \<or> n = 7 \<or> n = 6 \<or> n = 5 \<or> n = 4 \<or> n = 3 \<or> n = 2 \<or> n = 1 \<or> n = 0"
    by arith
  then show "is_digit (digit n)" and "unat (digit n - 0x30) = nat n"
    and "digit n \<noteq> 0x2B" and "digit n \<noteq> 0x2D"
    by (auto simp: is_digit_def digit_def)
qed

lemma mod_10_digit:
  fixes n :: int
  shows "0 \<le> n mod 10" "n mod 10 \<le> 9"
  using pos_mod_bound [of 10 n] by simp_all

lemma length_digits [simp]: "length (digits k n) = k"
  by (induction k arbitrary: n) simp_all

lemma digits_all_digit: "list_all is_digit (digits k n)"
  by (induction k arbitrary: n) (simp_all add: digit_is_digit(1) mod_10_digit)

lemma number_snoc: "number (cs @ [c]) = 10 * number cs + unat (c - 0x30)"
  by (simp add: number_def)

lemma number_digits:
  assumes "0 \<le> n" "n < 10 ^ k"
  shows "number (digits k n) = nat n"
  using assms
proof (induction k arbitrary: n)
  case 0
  then show ?case by (simp add: number_def)
next
  case (Suc k)
  have q: "0 \<le> n div 10" using Suc.prems(1) by simp
  have "10 * (n div 10) \<le> n" by (rule floor_bounds) simp
  with Suc.prems(2) have "n div 10 < 10 ^ k" by simp
  with q have "number (digits k (n div 10)) = nat (n div 10)" by (rule Suc.IH)
  then have "number (digits (Suc k) n) = 10 * nat (n div 10) + nat (n mod 10)"
    by (simp add: number_snoc digit_is_digit(2) mod_10_digit)
  also have "\<dots> = nat n"
    using q mod_10_digit(1) [of n] mult_div_mod_eq [of 10 n] by linarith
  finally show ?case .
qed

lemma field_digits:
  assumes "0 \<le> n" "n < 10 ^ k" "lo \<le> nat n" "nat n \<le> hi"
  shows "field k lo hi (digits k n @ r) = Some r"
  using assms by (simp add: field_def digits_all_digit number_digits)

lemma expect_Cons: "expect c (c # r) = Some r"
  by (simp add: expect_def)

lemma digits_Cons:
  assumes "0 < k"
  obtains c cs where "digits k n = c # cs" "is_digit c" "c \<noteq> 0x2B" "c \<noteq> 0x2D"
proof -
  have "list_all is_digit (digits k n)" by (rule digits_all_digit)
  moreover from assms have "digits k n \<noteq> []" by (cases k) simp_all
  ultimately obtain c cs where c: "digits k n = c # cs" "is_digit c"
    by (cases "digits k n") simp_all
  from c(2) have "c \<noteq> 0x2B" "c \<noteq> 0x2D" by (auto simp: is_digit_def)
  with c show ?thesis by (rule that)
qed

lemma year_field_year_string:
  assumes "- 999999 \<le> y" "y \<le> 999999"
  shows "year_field (year_string y @ r) = Some r"
proof (cases "0 \<le> y \<and> y \<le> 9999")
  case True
  obtain c cs where c: "digits 4 y = c # cs" "c \<noteq> 0x2B" "c \<noteq> 0x2D"
    by (rule digits_Cons [of 4 y]) simp_all
  have "field 4 0 9999 (digits 4 y @ r) = Some r"
    by (rule field_digits) (use True in auto)
  moreover have "year_field (digits 4 y @ r) = field 4 0 9999 (digits 4 y @ r)"
    using c(2,3) by (simp add: year_field_def c(1))
  ultimately show ?thesis using True by (simp add: year_string_def)
next
  case False
  have "field 6 0 999999 (digits 6 \<bar>y\<bar> @ r) = Some r"
    by (rule field_digits) (use assms in simp_all)
  with False show ?thesis
    by (cases "y < 0") (simp_all add: year_string_def year_field_def js_def)
qed

lemma YearFromTime_bounds:
  "DayFromYear (YearFromTime t) \<le> Day t" "Day t < DayFromYear (YearFromTime t + 1)"
  using year_estimate [of "Day t"]
  by (auto simp add: YearFromTime_def Let_def)

lemma YearFromTime_correct:
  "DayFromYear (YearFromTime t) \<le> Day t"
  "Day t < DayFromYear (YearFromTime t) + DaysInYear (YearFromTime t)"
  using YearFromTime_bounds [of t] by (simp_all add: DayFromYear_Suc)

lemma DayFromYear_mono:
  assumes "y \<le> z"
  shows "DayFromYear y \<le> DayFromYear z"
  using assms
proof (induction z rule: int_ge_induct)
  case base
  show ?case by simp
next
  case (step i)
  with DayFromYear_less [of i] show ?case by simp
qed

lemma YearFromTime_largest:
  assumes "msPerDay * DayFromYear y \<le> t"
  shows "y \<le> YearFromTime t"
proof (rule ccontr)
  assume "\<not> y \<le> YearFromTime t"
  then have "YearFromTime t + 1 \<le> y" by simp
  then have "DayFromYear (YearFromTime t + 1) \<le> DayFromYear y" by (rule DayFromYear_mono)
  with YearFromTime_bounds(2) [of t] have "Day t < DayFromYear y" by simp
  then have "Day t + 1 \<le> DayFromYear y" by simp
  then have "msPerDay * (Day t + 1) \<le> msPerDay * DayFromYear y"
    by (simp add: msPerDay_def)
  moreover have "t < msPerDay * (t div msPerDay) + msPerDay"
    by (rule floor_bounds) (simp add: msPerDay_def)
  ultimately show False using assms by (simp add: Day_def algebra_simps)
qed

lemma YearFromTime_TimeFromYear: "msPerDay * DayFromYear (YearFromTime t) \<le> t"
proof -
  have "msPerDay * (t div msPerDay) \<le> t"
    by (rule floor_bounds) (simp add: msPerDay_def)
  moreover have "msPerDay * DayFromYear (YearFromTime t) \<le> msPerDay * Day t"
    using YearFromTime_bounds(1) [of t] by (simp add: msPerDay_def)
  ultimately show ?thesis by (simp add: Day_def)
qed

lemma DayWithinYear_range:
  "0 \<le> DayWithinYear t" "DayWithinYear t < 365 + InLeapYear t"
  using YearFromTime_correct [of t] DaysInYear_cases [of "YearFromTime t"]
  by (auto simp: DayWithinYear_def InLeapYear_def)

lemma InLeapYear_cases: "InLeapYear t = 0 \<or> InLeapYear t = 1"
  by (simp add: InLeapYear_def)

lemma MonthFromTime_range: "0 \<le> MonthFromTime t" "MonthFromTime t \<le> 11"
  by (simp_all add: MonthFromTime_def Let_def)

lemma month_date_range:
  fixes d l :: int
  assumes "0 \<le> d" "d < 365 + l" "l = 0 \<or> l = 1"
  defines "m \<equiv> (if d < 31 then 0
      else if d < 59 + l then 1
      else if d < 90 + l then 2
      else if d < 120 + l then 3
      else if d < 151 + l then 4
      else if d < 181 + l then 5
      else if d < 212 + l then 6
      else if d < 243 + l then 7
      else if d < 273 + l then 8
      else if d < 304 + l then 9
      else if d < 334 + l then 10
      else (11::int))"
  defines "x \<equiv> (if m = 0 then d + 1
      else if m = 1 then d - 30
      else if m = 2 then d - 58 - l
      else if m = 3 then d - 89 - l
      else if m = 4 then d - 119 - l
      else if m = 5 then d - 150 - l
      else if m = 6 then d - 180 - l
      else if m = 7 then d - 211 - l
      else if m = 8 then d - 242 - l
      else if m = 9 then d - 272 - l
      else if m = 10 then d - 303 - l
      else d - 333 - l)"
  shows "1 \<le> x \<and> x \<le> 31"
  using assms(1-3) unfolding x_def m_def by (auto split: if_splits)

lemma DateFromTime_range: "1 \<le> DateFromTime t" "DateFromTime t \<le> 31"
  using month_date_range [OF DayWithinYear_range InLeapYear_cases, of t]
  by (simp_all add: DateFromTime_def MonthFromTime_def Let_def)

lemma clock_ranges:
  "0 \<le> HourFromTime t" "HourFromTime t \<le> 23"
  "0 \<le> MinFromTime t" "MinFromTime t \<le> 59"
  "0 \<le> SecFromTime t" "SecFromTime t \<le> 59"
  "0 \<le> msFromTime t" "msFromTime t \<le> 999"
  using pos_mod_bound [of 24 "t div 3600000"] pos_mod_bound [of 60 "t div 60000"]
    pos_mod_bound [of 60 "t div 1000"] pos_mod_bound [of 1000 t]
  by (simp_all add: HourFromTime_def MinFromTime_def SecFromTime_def msFromTime_def)

lemma Day_range:
  assumes "- 8640000000000000 \<le> t" "t \<le> 8640000000000000"
  shows "- 100000000 \<le> Day t" "Day t \<le> 100000000"
proof -
  have "msPerDay * (t div msPerDay) \<le> t" "t < msPerDay * (t div msPerDay) + msPerDay"
    by (rule floor_bounds, simp add: msPerDay_def)+
  with assms show "- 100000000 \<le> Day t" "Day t \<le> 100000000"
    by (simp_all add: Day_def msPerDay_def)
qed

lemma YearFromTime_range:
  assumes "- 8640000000000000 \<le> t" "t \<le> 8640000000000000"
  shows "- 999999 \<le> YearFromTime t" "YearFromTime t \<le> 999999"
proof -
  from Day_range [OF assms] YearFromTime_correct [of t]
  have "DayFromYear (YearFromTime t) \<le> 100000000"
    and "- 100000000 \<le> DayFromYear (YearFromTime t + 1)"
    by (simp_all add: DayFromYear_Suc)
  then have "YearFromTime t \<le> 300000" "- 300000 \<le> YearFromTime t + 1"
    by (simp_all add: year_upper year_lower)
  then show "- 999999 \<le> YearFromTime t" "YearFromTime t \<le> 999999" by simp_all
qed

lemma toISOString_iso8601:
  assumes "- 8640000000000000 \<le> time_value d" "time_value d \<le> 8640000000000000"
  shows "iso8601 (toISOString d)"
proof -
  let ?t = "time_value d"
  have y: "year_field (year_string (YearFromTime ?t) @ r) = Some r" for r
    using YearFromTime_range [OF assms] by (rule year_field_year_string)
  have mo: "field 2 1 12 (digits 2 (MonthFromTime ?t + 1) @ r) = Some r" for r
    by (rule field_digits) (use MonthFromTime_range [of ?t] in simp_all)
  have da: "field 2 1 31 (digits 2 (DateFromTime ?t) @ r) = Some r" for r
    by (rule field_digits) (use DateFromTime_range [of ?t] in simp_all)
  have ho: "field 2 0 23 (digits 2 (HourFromTime ?t) @ r) = Some r" for r
    by (rule field_digits) (use clock_ranges(1,2) [of ?t] in simp_all)
  have mi: "field 2 0 59 (digits 2 (MinFromTime ?t) @ r) = Some r" for r
    by (rule field_digits) (use clock_ranges(3,4) [of ?t] in simp_all)
  have se: "field 2 0 59 (digits 2 (SecFromTime ?t) @ r) = Some r" for r
    by (rule field_digits) (use clock_ranges(5,6) [of ?t] in simp_all)
  have ms: "field 3 0 999 (digits 3 (msFromTime ?t) @ r) = Some r" for r
    by (rule field_digits) (use clock_ranges(7,8) [of ?t] in simp_all)
  have l: "js ''-'' = [0x2D]" "js ''T'' = [0x54]" "js '':'' = [0x3A]" "js ''.'' = [0x2E]"
    "js ''Z'' = [0x5A]"
    by (simp_all add: js_def)
  show ?thesis
    unfolding iso8601_def toISOString_def Let_def l
    by (simp only: parse.simps y mo da ho mi se ms expect_Cons option.case append_Cons append_Nil)
qed

lemma toISOString_a_date: "toISOString a_date = js ''2026-11-02T19:20:00.000Z''"
  by code_simp

lemma not_iso8601_examples: "\<not> iso8601 (js ''yesterday'')" "\<not> iso8601 []"
  by code_simp+

text \<open>
  C6. \<^verbatim>\<open>GET /health\<close> always responds 200 with
  \<^verbatim>\<open>{status: 'ok', timestamp: new Date().toISOString()}\<close> and leaves the effects
  unchanged (no transport call, nothing logged); the response is the same whatever the
  transport, the environment and the effects so far are; and for every time value a Date
  can hold (at most 8.64e15 milliseconds either side of the epoch) the timestamp is a
  well-formed ISO-8601 string.
\<close>
theorem health_ok:
  "health tr e now w =
     (Some \<lparr> status = 200,
             json = [(''status'', S (js ''ok'')), (''timestamp'', S (toISOString now))] \<rparr>,
      w)
   \<and> fst (health tr e now w) = fst (health tr' e' now w')
   \<and> (- 8640000000000000 \<le> time_value now \<and> time_value now \<le> 8640000000000000 \<longrightarrow>
        iso8601 (toISOString now))"
  using toISOString_iso8601 [of now] by (simp add: health_def)

theorem health_ok_witness:
  "health always_rejects example_env a_date nothing_yet =
     (Some \<lparr> status = 200,
             json = [(''status'', S (js ''ok'')),
                     (''timestamp'', S (js ''2026-11-02T19:20:00.000Z''))] \<rparr>,
      nothing_yet)
   \<and> iso8601 (js ''2026-11-02T19:20:00.000Z'')"
proof -
  have "- 8640000000000000 \<le> time_value a_date \<and> time_value a_date \<le> 8640000000000000"
    by (simp add: a_date_def)
  with health_ok [of always_rejects example_env a_date nothing_yet]
  have "health always_rejects example_env a_date nothing_yet =
     (Some \<lparr> status = 200,
             json = [(''status'', S (js ''ok'')), (''timestamp'', S (toISOString a_date))] \<rparr>,
      nothing_yet)"
    and "iso8601 (toISOString a_date)"
    by blast+
  then show ?thesis by (simp add: toISOString_a_date)
qed

subsection \<open>The address pattern in the handler\<close>

lemma test_Str: "test emailRegex (Str s) \<longleftrightarrow> matches emailRegex s"
  by (simp add: test_def)

text \<open>
  C9. The address pattern accepts a string exactly when it is one or more code units
  that are neither white space nor \<^verbatim>\<open>@\<close>, then \<^verbatim>\<open>@\<close>, then one or more such code
  units, then a full stop, then one or more such code units up to the end. So a string
  with no full stop after an \<^verbatim>\<open>@\<close>, with more than one \<^verbatim>\<open>@\<close>, or with any white
  space is not accepted, and a submission whose email is a string that is not accepted
  is answered 400 with no transport call.
\<close>
theorem address_pattern_exact:
  "(test emailRegex (Str s) \<longleftrightarrow>
      (\<exists>l d t. s = l @ at_sign # d @ full_stop # t \<and> plain l \<and> plain d \<and> plain t))
   \<and> (s = l @ at_sign # r \<and> full_stop \<notin> set r \<longrightarrow> \<not> test emailRegex (Str s))
   \<and> (1 < count_list s at_sign \<longrightarrow> \<not> test emailRegex (Str s))
   \<and> (list_ex isWhiteSpace s \<longrightarrow> \<not> test emailRegex (Str s))
   \<and> (email b = Str s \<and> \<not> test emailRegex (Str s) \<longrightarrow>
        (\<exists>msg. submit_form tr e now (Some b) w =
           (Some \<lparr> status = 400, json = [(''success'', B False), (''error'', S msg)] \<rparr>, w)))"
proof (intro conjI impI)
  show "test emailRegex (Str s) \<longleftrightarrow>
      (\<exists>l d t. s = l @ at_sign # d @ full_stop # t \<and> plain l \<and> plain d \<and> plain t)"
    unfolding test_Str by (rule matches_emailRegex_iff)
next
  assume "s = l @ at_sign # r \<and> full_stop \<notin> set r"
  then show "\<not> test emailRegex (Str s)"
    unfolding test_Str using matches_emailRegex_dot_after_at [of s l r] by blast
next
  assume "1 < count_list s at_sign"
  then show "\<not> test emailRegex (Str s)"
    unfolding test_Str using matches_emailRegex_one_at [of s] by auto
next
  assume "list_ex isWhiteSpace s"
  then show "\<not> test emailRegex (Str s)"
    unfolding test_Str list_ex_iff using matches_emailRegex_no_space [of s] by blast
next
  assume "email b = Str s \<and> \<not> test emailRegex (Str s)"
  then have "\<not> test emailRegex (email b)" by simp
  from bad_email_rejected [OF this, of tr e now w]
  show "\<exists>msg. submit_form tr e now (Some b) w =
           (Some \<lparr> status = 400, json = [(''success'', B False), (''error'', S msg)] \<rparr>, w)"
    by (auto simp: missing_fields_def invalid_email_def)
qed

theorem address_pattern_exact_witness:
  "test emailRegex (Str (js ''a@b.c''))
   \<and> \<not> test emailRegex (Str (js ''a@b''))
   \<and> \<not> test emailRegex (Str (js ''a@b@c.d''))
   \<and> \<not> test emailRegex (Str (js ''a b@c.d''))
   \<and> (\<exists>msg. submit_form always_resolves example_env a_date (Some (john\<lparr>email := Str (js ''a@b'')\<rparr>))
          nothing_yet =
        (Some \<lparr> status = 400, json = [(''success'', B False), (''error'', S msg)] \<rparr>, nothing_yet))"
proof -
  have 1: "js ''a@b.c'' = js ''a'' @ at_sign # js ''b'' @ full_stop # js ''c''
      \<and> plain (js ''a'') \<and> plain (js ''b'') \<and> plain (js ''c'')"
    by code_simp
  have 2: "js ''a@b'' = js ''a'' @ at_sign # js ''b'' \<and> full_stop \<notin> set (js ''b'')"
    by code_simp
  have 3: "1 < count_list (js ''a@b@c.d'') at_sign"
    by code_simp
  have 4: "list_ex isWhiteSpace (js ''a b@c.d'')"
    by code_simp
  have a: "test emailRegex (Str (js ''a@b.c''))"
    using address_pattern_exact [of "js ''a@b.c''"] 1 by blast
  have b: "\<not> test emailRegex (Str (js ''a@b''))"
    using address_pattern_exact [of "js ''a@b''" "js ''a''" "js ''b''"] 2 by blast
  have c: "\<not> test emailRegex (Str (js ''a@b@c.d''))"
    using address_pattern_exact [of "js ''a@b@c.d''"] 3 by blast
  have d: "\<not> test emailRegex (Str (js ''a b@c.d''))"
    using address_pattern_exact [of "js ''a b@c.d''"] 4 by blast
  have "email (john\<lparr>email := Str (js ''a@b'')\<rparr>) = Str (js ''a@b'')
      \<and> \<not> test emailRegex (Str (js ''a@b''))"
    using b by simp
  with address_pattern_exact [of "js ''a@b''" _ _ "john\<lparr>email := Str (js ''a@b'')\<rparr>"
      always_resolves example_env a_date nothing_yet]
  have e: "\<exists>msg. submit_form always_resolves example_env a_date (Some (john\<lparr>email := Str (js ''a@b'')\<rparr>))
          nothing_yet =
        (Some \<lparr> status = 400, json = [(''success'', B False), (''error'', S msg)] \<rparr>, nothing_yet)"
    by blast
  from a b c d e show ?thesis by blast
qed

subsection \<open>Order and nature of the two checks\<close>

lemma responses_distinct:
  "missing_fields \<noteq> invalid_email" "missing_fields \<noteq> submitted"
  "missing_fields \<noteq> internal_error" "invalid_email \<noteq> submitted"
  "invalid_email \<noteq> internal_error"
  by (simp_all add: missing_fields_def invalid_email_def submitted_def internal_error_def js_def)

lemma transport_cases:
  obtains (first_rejected) err where "tr (sent w) (mailOptions e now b) = Rejected err"
  | (first_pending) "tr (sent w) (mailOptions e now b) = Pending"
  | (second_rejected) err where "tr (sent w) (mailOptions e now b) = Resolved"
      "tr (sent w @ [mailOptions e now b]) (confirmationEmail e b) = Rejected err"
  | (second_pending) "tr (sent w) (mailOptions e now b) = Resolved"
      "tr (sent w @ [mailOptions e now b]) (confirmationEmail e b) = Pending"
  | (both_resolved) "tr (sent w) (mailOptions e now b) = Resolved"
      "tr (sent w @ [mailOptions e now b]) (confirmationEmail e b) = Resolved"
proof (cases "tr (sent w) (mailOptions e now b)")
  case Resolved
  then show ?thesis
    by (cases "tr (sent w @ [mailOptions e now b]) (confirmationEmail e b)")
      (auto intro: second_rejected second_pending both_resolved)
qed (auto intro: first_rejected first_pending)

lemma valid_attempts_notification:
  assumes "valid b"
  shows "prefix (sent w @ [mailOptions e now b]) (sent (snd (submit_form tr e now (Some b) w)))"
  using assms
  by (cases rule: transport_cases [of tr w e now b])
    (simp_all add: submit_form_first_rejected submit_form_first_pending
      submit_form_second_rejected submit_form_second_pending submit_form_both_resolved)

lemma valid_never_400:
  assumes "valid b" and "fst (submit_form tr e now (Some b) w) = Some r"
  shows "status r \<noteq> 400"
  using assms
  by (cases rule: transport_cases [of tr w e now b])
    (auto simp add: submit_form_first_rejected submit_form_first_pending
      submit_form_second_rejected submit_form_second_pending submit_form_both_resolved
      internal_error_def submitted_def)

lemma missing_fields_iff:
  "fst (submit_form tr e now (Some b) w) = Some missing_fields \<longleftrightarrow>
     \<not> (truthy (name b) \<and> truthy (email b) \<and> truthy (website b))"
proof (cases "truthy (name b) \<and> truthy (email b) \<and> truthy (website b)")
  case False
  then show ?thesis using submit_form_missing [of b tr e now w] by auto
next
  case True
  show ?thesis
  proof (cases "test emailRegex (email b)")
    case False
    with True show ?thesis
      using submit_form_invalid [of b tr e now w] responses_distinct by auto
  next
    case t: True
    with True have "valid b" by (simp add: valid_def)
    then have "fst (submit_form tr e now (Some b) w) \<noteq> Some missing_fields"
      using valid_never_400 [of b tr e now w missing_fields] by (auto simp: missing_fields_def)
    with True show ?thesis by simp
  qed
qed

text \<open>
  C10. The required-field check is truthiness and comes first: the handler answers
  \<^verbatim>\<open>'Missing required fields'\<close> exactly when name, email or website is falsy; a name
  or website made of white space only is not rejected (with the other fields valid the
  notification send is attempted and the response is not a 400); and a submission that
  misses a required field and also has a malformed email gets \<^verbatim>\<open>'Missing required
  fields'\<close>, not \<^verbatim>\<open>'Invalid email address'\<close>.
\<close>
theorem required_check_is_truthiness:
  "(fst (submit_form tr e now (Some b) w) =
      Some \<lparr> status = 400,
             json = [(''success'', B False), (''error'', S (js ''Missing required fields''))] \<rparr>
    \<longleftrightarrow> \<not> (truthy (name b) \<and> truthy (email b) \<and> truthy (website b)))
   \<and> (n \<noteq> [] \<and> list_all isWhiteSpace n
        \<and> (name b = Str n \<and> truthy (website b) \<or> website b = Str n \<and> truthy (name b))
        \<and> truthy (email b) \<and> test emailRegex (email b) \<longrightarrow>
      prefix (sent w @ [mailOptions e now b]) (sent (snd (submit_form tr e now (Some b) w)))
      \<and> (\<forall>r. fst (submit_form tr e now (Some b) w) = Some r \<longrightarrow> status r \<noteq> 400))
   \<and> ((\<not> truthy (name b) \<or> \<not> truthy (email b) \<or> \<not> truthy (website b))
        \<and> \<not> test emailRegex (email b) \<longrightarrow>
      submit_form tr e now (Some b) w =
        (Some \<lparr> status = 400,
                json = [(''success'', B False), (''error'', S (js ''Missing required fields''))] \<rparr>,
         w)
      \<and> fst (submit_form tr e now (Some b) w) \<noteq>
        Some \<lparr> status = 400,
               json = [(''success'', B False), (''error'', S (js ''Invalid email address''))] \<rparr>)"
proof (intro conjI impI)
  show "fst (submit_form tr e now (Some b) w) =
      Some \<lparr> status = 400,
             json = [(''success'', B False), (''error'', S (js ''Missing required fields''))] \<rparr>
    \<longleftrightarrow> \<not> (truthy (name b) \<and> truthy (email b) \<and> truthy (website b))"
    using missing_fields_iff [of tr e now b w] by (simp add: missing_fields_def)
next
  assume a: "n \<noteq> [] \<and> list_all isWhiteSpace n
        \<and> (name b = Str n \<and> truthy (website b) \<or> website b = Str n \<and> truthy (name b))
        \<and> truthy (email b) \<and> test emailRegex (email b)"
  then have v: "valid b" by (auto simp add: valid_def)
  then show "prefix (sent w @ [mailOptions e now b]) (sent (snd (submit_form tr e now (Some b) w)))"
    by (rule valid_attempts_notification)
  from v show "\<forall>r. fst (submit_form tr e now (Some b) w) = Some r \<longrightarrow> status r \<noteq> 400"
    using valid_never_400 by blast
next
  assume a: "(\<not> truthy (name b) \<or> \<not> truthy (email b) \<or> \<not> truthy (website b))
        \<and> \<not> test emailRegex (email b)"
  then have m: "submit_form tr e now (Some b) w = (Some missing_fields, w)"
    using submit_form_missing [of b tr e now w] by blast
  then show "submit_form tr e now (Some b) w =
        (Some \<lparr> status = 400,
                json = [(''success'', B False), (''error'', S (js ''Missing required fields''))] \<rparr>,
         w)"
    by (simp add: missing_fields_def)
  from m responses_distinct(1) show "fst (submit_form tr e now (Some b) w) \<noteq>
        Some \<lparr> status = 400,
               json = [(''success'', B False), (''error'', S (js ''Invalid email address''))] \<rparr>"
    by (simp add: invalid_email_def)
qed

theorem required_check_is_truthiness_witness:
  "prefix (sent nothing_yet @ [mailOptions example_env a_date (john\<lparr>name := Str (js ''   '')\<rparr>)])
      (sent (snd (submit_form always_resolves example_env a_date (Some (john\<lparr>name := Str (js ''   '')\<rparr>))
         nothing_yet)))
   \<and> submit_form always_resolves example_env a_date
        (Some (john\<lparr>name := Undefined, email := Str (js ''not-an-email'')\<rparr>)) nothing_yet =
        (Some \<lparr> status = 400,
                json = [(''success'', B False), (''error'', S (js ''Missing required fields''))] \<rparr>,
         nothing_yet)"
proof -
  let ?blank = "john\<lparr>name := Str (js ''   '')\<rparr>"
  let ?both = "john\<lparr>name := Undefined, email := Str (js ''not-an-email'')\<rparr>"
  have ws: "js ''   '' \<noteq> [] \<and> list_all isWhiteSpace (js ''   '')"
    by code_simp
  have "truthy (email john) \<and> truthy (website john) \<and> test emailRegex (email john)"
    using valid_john by (simp add: valid_def)
  with ws have 1: "js ''   '' \<noteq> [] \<and> list_all isWhiteSpace (js ''   '')
        \<and> (name ?blank = Str (js ''   '') \<and> truthy (website ?blank)
           \<or> website ?blank = Str (js ''   '') \<and> truthy (name ?blank))
        \<and> truthy (email ?blank) \<and> test emailRegex (email ?blank)"
    by simp
  have 2: "(\<not> truthy (name ?both) \<or> \<not> truthy (email ?both) \<or> \<not> truthy (website ?both))
        \<and> \<not> test emailRegex (email ?both)"
    using not_an_email by simp
  from required_check_is_truthiness [of always_resolves example_env a_date ?blank nothing_yet
      "js ''   ''"] 1
  have a: "prefix (sent nothing_yet @ [mailOptions example_env a_date ?blank])
      (sent (snd (submit_form always_resolves example_env a_date (Some ?blank) nothing_yet)))
   \<and> (\<forall>r. fst (submit_form always_resolves example_env a_date (Some ?blank) nothing_yet) = Some r
        \<longrightarrow> status r \<noteq> 400)"
    by blast
  from required_check_is_truthiness [of always_resolves example_env a_date ?both nothing_yet] 2
  have b: "submit_form always_resolves example_env a_date (Some ?both) nothing_yet =
        (Some \<lparr> status = 400,
                json = [(''success'', B False), (''error'', S (js ''Missing required fields''))] \<rparr>,
         nothing_yet)"
    by blast
  from a b show ?thesis by blast
qed

subsection \<open>Statelessness\<close>

lemma submit_form_not_valid:
  assumes "\<not> valid b"
  shows "submit_form tr e now (Some b) w =
    (Some (if truthy (name b) \<and> truthy (email b) \<and> truthy (website b)
           then invalid_email else missing_fields), w)"
  using assms by (auto simp add: valid_def submit_form_def)

lemma submit_form_response:
  "fst (submit_form tr e now (Some b) w) =
     (if \<not> valid b
      then Some (if truthy (name b) \<and> truthy (email b) \<and> truthy (website b)
                 then invalid_email else missing_fields)
      else case tr (sent w) (mailOptions e now b) of
             Rejected err \<Rightarrow> Some internal_error
           | Pending \<Rightarrow> None
           | Resolved \<Rightarrow>
               (case tr (sent w @ [mailOptions e now b]) (confirmationEmail e b) of
                  Rejected err \<Rightarrow> Some internal_error
                | Pending \<Rightarrow> None
                | Resolved \<Rightarrow> Some submitted))"
proof (cases "valid b")
  case False
  then show ?thesis by (simp add: submit_form_not_valid)
next
  case True
  then show ?thesis
    by (cases rule: transport_cases [of tr w e now b])
      (simp_all add: submit_form_first_rejected submit_form_first_pending
        submit_form_second_rejected submit_form_second_pending submit_form_both_resolved)
qed

lemma effects_append_nothing: "w\<lparr>sent := sent w @ [], console := console w @ []\<rparr> = w"
  by simp

lemma submit_form_same_run:
  assumes o1: "tr1 (sent w1) (mailOptions e now b) = tr2 (sent w2) (mailOptions e now b)"
    and o2: "tr1 (sent w1 @ [mailOptions e now b]) (confirmationEmail e b) =
             tr2 (sent w2 @ [mailOptions e now b]) (confirmationEmail e b)"
  shows "\<exists>r ms ls.
      submit_form tr1 e now (Some b) w1 = (r, w1\<lparr>sent := sent w1 @ ms, console := console w1 @ ls\<rparr>)
    \<and> submit_form tr2 e now (Some b) w2 = (r, w2\<lparr>sent := sent w2 @ ms, console := console w2 @ ls\<rparr>)"
proof (cases "valid b")
  case False
  let ?r = "Some (if truthy (name b) \<and> truthy (email b) \<and> truthy (website b)
           then invalid_email else missing_fields)"
  from False have "submit_form tr1 e now (Some b) w1 = (?r, w1\<lparr>sent := sent w1 @ [], console := console w1 @ []\<rparr>)"
    and "submit_form tr2 e now (Some b) w2 = (?r, w2\<lparr>sent := sent w2 @ [], console := console w2 @ []\<rparr>)"
    unfolding effects_append_nothing by (rule submit_form_not_valid)+
  then show ?thesis by blast
next
  case True
  let ?mo = "mailOptions e now b" and ?ce = "confirmationEmail e b"
  let ?label = "js ''Form submission error:''"
  show ?thesis
  proof (cases rule: transport_cases [of tr1 w1 e now b])
    case (first_rejected err)
    with o1 have "tr2 (sent w2) ?mo = Rejected err" by simp
    with True first_rejected
    have "submit_form tr1 e now (Some b) w1 =
        (Some internal_error, w1\<lparr>sent := sent w1 @ [?mo], console := console w1 @ [(?label, TransportError err)]\<rparr>)"
      and "submit_form tr2 e now (Some b) w2 =
        (Some internal_error, w2\<lparr>sent := sent w2 @ [?mo], console := console w2 @ [(?label, TransportError err)]\<rparr>)"
      by (simp_all add: submit_form_first_rejected)
    then show ?thesis by blast
  next
    case first_pending
    with o1 have "tr2 (sent w2) ?mo = Pending" by simp
    with True first_pending
    have "submit_form tr1 e now (Some b) w1 =
        (None, w1\<lparr>sent := sent w1 @ [?mo], console := console w1 @ []\<rparr>)"
      and "submit_form tr2 e now (Some b) w2 =
        (None, w2\<lparr>sent := sent w2 @ [?mo], console := console w2 @ []\<rparr>)"
      by (simp_all add: submit_form_first_pending)
    then show ?thesis by blast
  next
    case (second_rejected err)
    with o1 o2 have "tr2 (sent w2) ?mo = Resolved" "tr2 (sent w2 @ [?mo]) ?ce = Rejected err"
      by simp_all
    with True second_rejected
    have "submit_form tr1 e now (Some b) w1 =
        (Some internal_error,
         w1\<lparr>sent := sent w1 @ [?mo, ?ce], console := console w1 @ [(?label, TransportError err)]\<rparr>)"
      and "submit_form tr2 e now (Some b) w2 =
        (Some internal_error,
         w2\<lparr>sent := sent w2 @ [?mo, ?ce], console := console w2 @ [(?label, TransportError err)]\<rparr>)"
      by (simp_all add: submit_form_second_rejected)
    then show ?thesis by blast
  next
    case second_pending
    with o1 o2 have "tr2 (sent w2) ?mo = Resolved" "tr2 (sent w2 @ [?mo]) ?ce = Pending"
      by simp_all
    with True second_pending
    have "submit_form tr1 e now (Some b) w1 =
        (None, w1\<lparr>sent := sent w1 @ [?mo, ?ce], console := console w1 @ []\<rparr>)"
      and "submit_form tr2 e now (Some b) w2 =
        (None, w2\<lparr>sent := sent w2 @ [?mo, ?ce], console := console w2 @ []\<rparr>)"
      by (simp_all add: submit_form_second_pending)
    then show ?thesis by blast
  next
    case both_resolved
    with o1 o2 have "tr2 (sent w2) ?mo = Resolved" "tr2 (sent w2 @ [?mo]) ?ce = Resolved"
      by simp_all
    with True both_resolved
    have "submit_form tr1 e now (Some b) w1 =
        (Some submitted, w1\<lparr>sent := sent w1 @ [?mo, ?ce], console := console w1 @ []\<rparr>)"
      and "submit_form tr2 e now (Some b) w2 =
        (Some submitted, w2\<lparr>sent := sent w2 @ [?mo, ?ce], console := console w2 @ []\<rparr>)"
      by (simp_all add: submit_form_both_resolved)
    then show ?thesis by blast
  qed
qed

lemma submit_form_twice:
  assumes "valid b"
    and "tr (sent w) (mailOptions e now1 b) = Resolved"
    and "tr (sent w @ [mailOptions e now1 b]) (confirmationEmail e b) = Resolved"
    and "tr (sent w @ [mailOptions e now1 b, confirmationEmail e b]) (mailOptions e now2 b) = Resolved"
    and "tr (sent w @ [mailOptions e now1 b, confirmationEmail e b, mailOptions e now2 b])
           (confirmationEmail e b) = Resolved"
  shows "submit_form tr e now2 (Some b) (snd (submit_form tr e now1 (Some b) w)) =
    (Some submitted,
     w\<lparr>sent := sent w @ [mailOptions e now1 b, confirmationEmail e b,
                          mailOptions e now2 b, confirmationEmail e b]\<rparr>)"
proof -
  let ?w1 = "w\<lparr>sent := sent w @ [mailOptions e now1 b, confirmationEmail e b]\<rparr>"
  from assms(1-3) have 1: "submit_form tr e now1 (Some b) w = (Some submitted, ?w1)"
    by (rule submit_form_both_resolved)
  have "submit_form tr e now2 (Some b) ?w1 =
      (Some submitted, ?w1\<lparr>sent := sent ?w1 @ [mailOptions e now2 b, confirmationEmail e b]\<rparr>)"
    using assms(1,4,5) by (intro submit_form_both_resolved) simp_all
  with 1 show ?thesis by simp
qed

text \<open>
  C8. The handler keeps nothing from one request to the next. Two runs on the same body
  and environment whose two transport calls have the same outcomes give the same
  response, whatever the effects so far, the transport and the clock reading are; with
  the same clock reading they also add the same calls and the same log lines to the
  effects they started from. Nothing is deduplicated: the same valid body submitted
  twice, every send fulfilled, makes four transport calls, a notification and a
  confirmation for each request, and is answered 200 both times. Two requests with no
  parsed body get the same response and the same log line, whatever else differs.
\<close>
theorem submit_form_stateless:
  "(tr1 (sent w1) (mailOptions e now1 b) = tr2 (sent w2) (mailOptions e now2 b)
      \<and> tr1 (sent w1 @ [mailOptions e now1 b]) (confirmationEmail e b) =
        tr2 (sent w2 @ [mailOptions e now2 b]) (confirmationEmail e b) \<longrightarrow>
    fst (submit_form tr1 e now1 (Some b) w1) = fst (submit_form tr2 e now2 (Some b) w2))
   \<and> (tr1 (sent w1) (mailOptions e now b) = tr2 (sent w2) (mailOptions e now b)
      \<and> tr1 (sent w1 @ [mailOptions e now b]) (confirmationEmail e b) =
        tr2 (sent w2 @ [mailOptions e now b]) (confirmationEmail e b) \<longrightarrow>
    (\<exists>r ms ls.
        submit_form tr1 e now (Some b) w1 = (r, w1\<lparr>sent := sent w1 @ ms, console := console w1 @ ls\<rparr>)
      \<and> submit_form tr2 e now (Some b) w2 = (r, w2\<lparr>sent := sent w2 @ ms, console := console w2 @ ls\<rparr>)))
   \<and> (valid b
      \<and> tr (sent w) (mailOptions e now1 b) = Resolved
      \<and> tr (sent w @ [mailOptions e now1 b]) (confirmationEmail e b) = Resolved
      \<and> tr (sent w @ [mailOptions e now1 b, confirmationEmail e b]) (mailOptions e now2 b) = Resolved
      \<and> tr (sent w @ [mailOptions e now1 b, confirmationEmail e b, mailOptions e now2 b])
           (confirmationEmail e b) = Resolved \<longrightarrow>
    submit_form tr e now1 (Some b) w =
      (Some \<lparr> status = 200,
              json = [(''success'', B True), (''message'', S (js ''Form submitted successfully''))] \<rparr>,
       w\<lparr>sent := sent w @ [mailOptions e now1 b, confirmationEmail e b]\<rparr>)
    \<and> submit_form tr e now2 (Some b) (snd (submit_form tr e now1 (Some b) w)) =
      (Some \<lparr> status = 200,
              json = [(''success'', B True), (''message'', S (js ''Form submitted successfully''))] \<rparr>,
       w\<lparr>sent := sent w @ [mailOptions e now1 b, confirmationEmail e b,
                            mailOptions e now2 b, confirmationEmail e b]\<rparr>))
   \<and> (\<exists>r ls.
        submit_form tr1 e now1 None w1 = (r, w1\<lparr>console := console w1 @ ls\<rparr>)
      \<and> submit_form tr2 e now2 None w2 = (r, w2\<lparr>console := console w2 @ ls\<rparr>))"
proof (intro conjI impI)
  show "\<exists>r ls.
        submit_form tr1 e now1 None w1 = (r, w1\<lparr>console := console w1 @ ls\<rparr>)
      \<and> submit_form tr2 e now2 None w2 = (r, w2\<lparr>console := console w2 @ ls\<rparr>)"
    using submit_form_no_body by blast
next
  assume "tr1 (sent w1) (mailOptions e now1 b) = tr2 (sent w2) (mailOptions e now2 b)
      \<and> tr1 (sent w1 @ [mailOptions e now1 b]) (confirmationEmail e b) =
        tr2 (sent w2 @ [mailOptions e now2 b]) (confirmationEmail e b)"
  then show "fst (submit_form tr1 e now1 (Some b) w1) = fst (submit_form tr2 e now2 (Some b) w2)"
    by (elim conjE) (simp add: submit_form_response cong: outcome.case_cong)
next
  assume "tr1 (sent w1) (mailOptions e now b) = tr2 (sent w2) (mailOptions e now b)
      \<and> tr1 (sent w1 @ [mailOptions e now b]) (confirmationEmail e b) =
        tr2 (sent w2 @ [mailOptions e now b]) (confirmationEmail e b)"
  then show "\<exists>r ms ls.
        submit_form tr1 e now (Some b) w1 = (r, w1\<lparr>sent := sent w1 @ ms, console := console w1 @ ls\<rparr>)
      \<and> submit_form tr2 e now (Some b) w2 = (r, w2\<lparr>sent := sent w2 @ ms, console := console w2 @ ls\<rparr>)"
    using submit_form_same_run by blast
next
  assume a: "valid b
      \<and> tr (sent w) (mailOptions e now1 b) = Resolved
      \<and> tr (sent w @ [mailOptions e now1 b]) (confirmationEmail e b) = Resolved
      \<and> tr (sent w @ [mailOptions e now1 b, confirmationEmail e b]) (mailOptions e now2 b) = Resolved
      \<and> tr (sent w @ [mailOptions e now1 b, confirmationEmail e b, mailOptions e now2 b])
           (confirmationEmail e b) = Resolved"
  then show "submit_form tr e now1 (Some b) w =
      (Some \<lparr> status = 200,
              json = [(''success'', B True), (''message'', S (js ''Form submitted successfully''))] \<rparr>,
       w\<lparr>sent := sent w @ [mailOptions e now1 b, confirmationEmail e b]\<rparr>)"
    using submit_form_both_resolved [of b tr w e now1] by (simp add: submitted_def)
  from a show "submit_form tr e now2 (Some b) (snd (submit_form tr e now1 (Some b) w)) =
      (Some \<lparr> status = 200,
              json = [(''success'', B True), (''message'', S (js ''Form submitted successfully''))] \<rparr>,
       w\<lparr>sent := sent w @ [mailOptions e now1 b, confirmationEmail e b,
                            mailOptions e now2 b, confirmationEmail e b]\<rparr>)"
    using submit_form_twice [of b tr w e now1 now2] by (simp add: submitted_def)
qed


theorem submit_form_stateless_witness:
  "fst (submit_form always_resolves example_env a_date (Some john) nothing_yet) =
     fst (submit_form always_resolves example_env a_moment_later (Some john) one_request_served)
   \<and> (\<exists>r ms ls.
        submit_form always_resolves example_env a_date (Some john) nothing_yet =
          (r, nothing_yet\<lparr>sent := sent nothing_yet @ ms, console := console nothing_yet @ ls\<rparr>)
      \<and> submit_form always_resolves example_env a_date (Some john) one_request_served =
          (r, one_request_served\<lparr>sent := sent one_request_served @ ms,
                console := console one_request_served @ ls\<rparr>))
   \<and> submit_form always_resolves example_env a_moment_later (Some john)
        (snd (submit_form always_resolves example_env a_date (Some john) nothing_yet)) =
      (Some \<lparr> status = 200,
              json = [(''success'', B True), (''message'', S (js ''Form submitted successfully''))] \<rparr>,
       \<lparr> sent = [mailOptions example_env a_date john, confirmationEmail example_env john,
                 mailOptions example_env a_moment_later john, confirmationEmail example_env john],
         console = [] \<rparr>)"
proof -
  note t = submit_form_stateless [where ?tr1.0 = always_resolves and ?tr2.0 = always_resolves
      and tr = always_resolves and e = example_env and b = john
      and ?w1.0 = nothing_yet and ?w2.0 = one_request_served and w = nothing_yet
      and ?now1.0 = a_date and ?now2.0 = a_moment_later and now = a_date]
  have r: "always_resolves h m = Resolved" for h m
    by (simp add: always_resolves_def)
  from t have 1: "fst (submit_form always_resolves example_env a_date (Some john) nothing_yet) =
     fst (submit_form always_resolves example_env a_moment_later (Some john) one_request_served)"
    by (simp add: r)
  from t have 2: "\<exists>r ms ls.
        submit_form always_resolves example_env a_date (Some john) nothing_yet =
          (r, nothing_yet\<lparr>sent := sent nothing_yet @ ms, console := console nothing_yet @ ls\<rparr>)
      \<and> submit_form always_resolves example_env a_date (Some john) one_request_served =
          (r, one_request_served\<lparr>sent := sent one_request_served @ ms,
                console := console one_request_served @ ls\<rparr>)"
    by (simp add: r)
  have h: "valid john
      \<and> always_resolves (sent nothing_yet) (mailOptions example_env a_date john) = Resolved
      \<and> always_resolves (sent nothing_yet @ [mailOptions example_env a_date john])
          (confirmationEmail example_env john) = Resolved
      \<and> always_resolves
          (sent nothing_yet @ [mailOptions example_env a_date john, confirmationEmail example_env john])
          (mailOptions example_env a_moment_later john) = Resolved
      \<and> always_resolves
          (sent nothing_yet @ [mailOptions example_env a_date john, confirmationEmail example_env john,
             mailOptions example_env a_moment_later john])
          (confirmationEmail example_env john) = Resolved"
    by (simp add: valid_john r)
  note t [THEN conjunct2, THEN conjunct2, THEN conjunct1, THEN mp, OF h, THEN conjunct2]
  moreover have "nothing_yet\<lparr>sent := sent nothing_yet @
         [mailOptions example_env a_date john, confirmationEmail example_env john,
          mailOptions example_env a_moment_later john, confirmationEmail example_env john]\<rparr> =
       \<lparr> sent = [mailOptions example_env a_date john, confirmationEmail example_env john,
                 mailOptions example_env a_moment_later john, confirmationEmail example_env john],
         console = [] \<rparr>"
    by (simp add: nothing_yet_def)
  ultimately have 3: "submit_form always_resolves example_env a_moment_later (Some john)
        (snd (submit_form always_resolves example_env a_date (Some john) nothing_yet)) =
      (Some \<lparr> status = 200,
              json = [(''success'', B True), (''message'', S (js ''Form submitted successfully''))] \<rparr>,
       \<lparr> sent = [mailOptions example_env a_date john, confirmationEmail example_env john,
                 mailOptions example_env a_moment_later john, confirmationEmail example_env john],
         console = [] \<rparr>)"
    by (rule back_subst [where P = "\<lambda>x. submit_form always_resolves example_env a_moment_later (Some john)
        (snd (submit_form always_resolves example_env a_date (Some john) nothing_yet)) = (_, x)"])
  from 1 2 3 show ?thesis by blast
qed

subsection \<open>Addressing and content of the two messages\<close>

lemma js_append: "js (xs @ ys) = js xs @ js ys"
  by (simp add: js_def)

lemma js_Nil: "js [] = []"
  by (simp add: js_def)

lemma html_mailOptions:
  "html (mailOptions e now b) =
     js ''\<newline>                <h2>New Contact Form Submission</h2>\<newline>                ''
     @ js ''<p><strong>Name:</strong> '' @ toString (name b) @ js ''</p>''
     @ js ''\<newline>                ''
     @ js ''<p><strong>Email:</strong> '' @ toString (email b) @ js ''</p>''
     @ js ''\<newline>                ''
     @ js ''<p><strong>Website:</strong> '' @ toString (website b) @ js ''</p>''
     @ js ''\<newline>                ''
     @ (if truthy (phone b)
        then js ''<p><strong>Phone:</strong> '' @ toString (phone b) @ js ''</p>'' else [])
     @ js ''\<newline>                ''
     @ js ''<p><strong>Service:</strong> ''
     @ (if truthy (service b) then toString (service b) else js ''Not specified'')
     @ js ''</p>''
     @ js ''\<newline>                ''
     @ (if truthy (message b)
        then js ''<p><strong>Message:</strong><br>'' @ toString (message b) @ js ''</p>'' else [])
     @ js ''\<newline>                <hr>\<newline>                ''
     @ js ''<p><small>Submitted: '' @ toLocaleString now @ js ''</small></p>''
     @ js ''\<newline>            ''"
  by (simp add: mailOptions_def phone_line_def message_line_def js_or_def js_def)


lemma sublist_after: "sublist xs ys \<Longrightarrow> sublist xs (p @ ys)"
  unfolding sublist_def by (metis append_assoc)

lemma sublist_row: "sublist (x @ y @ z) (x @ y @ z @ q)"
  using sublist_append_rightI [of "x @ y @ z" q] by simp

lemma notification_rows:
  "sublist (js ''<p><strong>Name:</strong> '' @ toString (name b) @ js ''</p>'')
     (html (mailOptions e now b))"
  "sublist (js ''<p><strong>Email:</strong> '' @ toString (email b) @ js ''</p>'')
     (html (mailOptions e now b))"
  "sublist (js ''<p><strong>Website:</strong> '' @ toString (website b) @ js ''</p>'')
     (html (mailOptions e now b))"
  unfolding html_mailOptions by (rule sublist_row | rule sublist_after)+

lemma to_addr_mailOptions:
  "to_addr (mailOptions e now b) =
     (if truthy (RECIPIENT_EMAIL e) then RECIPIENT_EMAIL e else Str (js ''hello@markgrow.com''))"
  by (simp add: mailOptions_def js_or_def)

lemma to_addr_confirmationEmail: "to_addr (confirmationEmail e b) = email b"
  by (simp add: confirmationEmail_def)

lemma resolved_attempts_confirmation:
  assumes "valid b" and "tr (sent w) (mailOptions e now b) = Resolved"
  shows "prefix (sent w @ [mailOptions e now b, confirmationEmail e b])
     (sent (snd (submit_form tr e now (Some b) w)))"
  using assms(2)
  by (cases rule: transport_cases [of tr w e now b])
    (simp_all add: assms(1) submit_form_second_rejected submit_form_second_pending
      submit_form_both_resolved)

text \<open>
  C7, as stated, fails where \<^verbatim>\<open>RECIPIENT_EMAIL\<close> is set to the empty string (a line
  \<^verbatim>\<open>RECIPIENT_EMAIL=\<close> in \<^verbatim>\<open>.env\<close>): the variable is set, yet \<^verbatim>\<open>||\<close> takes the
  empty string as falsy and the notification for the valid submission of the
  specification goes to \<^verbatim>\<open>hello@markgrow.com\<close>, not to the value of the variable.
\<close>
theorem recipient_env_value_counterexample:
  "valid john
   \<and> RECIPIENT_EMAIL empty_recipient = Str []
   \<and> to_addr (mailOptions empty_recipient a_date john) = Str (js ''hello@markgrow.com'')
   \<and> to_addr (mailOptions empty_recipient a_date john) \<noteq> RECIPIENT_EMAIL empty_recipient"
  using valid_john by (simp add: to_addr_mailOptions empty_recipient_def js_def)

text \<open>
  C7, amended. For a valid submission the notification is the first message handed to
  the transport and, once that send is fulfilled, the confirmation is the second. The
  notification is addressed to the value of \<^verbatim>\<open>RECIPIENT_EMAIL\<close> when that value is
  truthy (set and not empty) and to \<^verbatim>\<open>hello@markgrow.com\<close> when it is unset or empty;
  the confirmation is addressed to the email field of the submission. The body of the
  notification contains the Name, Email and Website rows with the submitted values, and
  is the template below: the Phone row and the Message row are there exactly when the
  field is truthy, and the Service row shows \<^verbatim>\<open>Not specified\<close> when the field is not.
\<close>
theorem messages_addressing_and_content:
  assumes "valid b"
  shows "prefix (sent w @ [mailOptions e now b]) (sent (snd (submit_form tr e now (Some b) w)))
   \<and> (tr (sent w) (mailOptions e now b) = Resolved \<longrightarrow>
        prefix (sent w @ [mailOptions e now b, confirmationEmail e b])
          (sent (snd (submit_form tr e now (Some b) w))))
   \<and> (truthy (RECIPIENT_EMAIL e) \<longrightarrow> to_addr (mailOptions e now b) = RECIPIENT_EMAIL e)
   \<and> (\<not> truthy (RECIPIENT_EMAIL e) \<longrightarrow>
        to_addr (mailOptions e now b) = Str (js ''hello@markgrow.com''))
   \<and> to_addr (confirmationEmail e b) = email b
   \<and> sublist (js ''<p><strong>Name:</strong> '' @ toString (name b) @ js ''</p>'')
        (html (mailOptions e now b))
   \<and> sublist (js ''<p><strong>Email:</strong> '' @ toString (email b) @ js ''</p>'')
        (html (mailOptions e now b))
   \<and> sublist (js ''<p><strong>Website:</strong> '' @ toString (website b) @ js ''</p>'')
        (html (mailOptions e now b))
   \<and> html (mailOptions e now b) =
     js ''\<newline>                <h2>New Contact Form Submission</h2>\<newline>                ''
     @ js ''<p><strong>Name:</strong> '' @ toString (name b) @ js ''</p>''
     @ js ''\<newline>                ''
     @ js ''<p><strong>Email:</strong> '' @ toString (email b) @ js ''</p>''
     @ js ''\<newline>                ''
     @ js ''<p><strong>Website:</strong> '' @ toString (website b) @ js ''</p>''
     @ js ''\<newline>                ''
     @ (if truthy (phone b)
        then js ''<p><strong>Phone:</strong> '' @ toString (phone b) @ js ''</p>'' else [])
     @ js ''\<newline>                ''
     @ js ''<p><strong>Service:</strong> ''
     @ (if truthy (service b) then toString (service b) else js ''Not specified'')
     @ js ''</p>''
     @ js ''\<newline>                ''
     @ (if truthy (message b)
        then js ''<p><strong>Message:</strong><br>'' @ toString (message b) @ js ''</p>'' else [])
     @ js ''\<newline>                <hr>\<newline>                ''
     @ js ''<p><small>Submitted: '' @ toLocaleString now @ js ''</small></p>''
     @ js ''\<newline>            ''"
proof (intro conjI impI)
  show "prefix (sent w @ [mailOptions e now b]) (sent (snd (submit_form tr e now (Some b) w)))"
    using assms by (rule valid_attempts_notification)
next
  assume "tr (sent w) (mailOptions e now b) = Resolved"
  with assms show "prefix (sent w @ [mailOptions e now b, confirmationEmail e b])
          (sent (snd (submit_form tr e now (Some b) w)))"
    by (rule resolved_attempts_confirmation)
next
  assume "truthy (RECIPIENT_EMAIL e)"
  then show "to_addr (mailOptions e now b) = RECIPIENT_EMAIL e"
    by (simp add: to_addr_mailOptions)
next
  assume "\<not> truthy (RECIPIENT_EMAIL e)"
  then show "to_addr (mailOptions e now b) = Str (js ''hello@markgrow.com'')"
    by (simp add: to_addr_mailOptions)
next
  show "to_addr (confirmationEmail e b) = email b"
    by (rule to_addr_confirmationEmail)
next
  show "html (mailOptions e now b) =
     js ''\<newline>                <h2>New Contact Form Submission</h2>\<newline>                ''
     @ js ''<p><strong>Name:</strong> '' @ toString (name b) @ js ''</p>''
     @ js ''\<newline>                ''
     @ js ''<p><strong>Email:</strong> '' @ toString (email b) @ js ''</p>''
     @ js ''\<newline>                ''
     @ js ''<p><strong>Website:</strong> '' @ toString (website b) @ js ''</p>''
     @ js ''\<newline>                ''
     @ (if truthy (phone b)
        then js ''<p><strong>Phone:</strong> '' @ toString (phone b) @ js ''</p>'' else [])
     @ js ''\<newline>                ''
     @ js ''<p><strong>Service:</strong> ''
     @ (if truthy (service b) then toString (service b) else js ''Not specified'')
     @ js ''</p>''
     @ js ''\<newline>                ''
     @ (if truthy (message b)
        then js ''<p><strong>Message:</strong><br>'' @ toString (message b) @ js ''</p>'' else [])
     @ js ''\<newline>                <hr>\<newline>                ''
     @ js ''<p><small>Submitted: '' @ toLocaleString now @ js ''</small></p>''
     @ js ''\<newline>            ''"
    by (rule html_mailOptions)
qed (rule notification_rows)+

theorem messages_addressing_and_content_witness:
  "to_addr (mailOptions custom_recipient a_date john) = Str (js ''leads@example.com'')
   \<and> to_addr (mailOptions empty_recipient a_date john) = Str (js ''hello@markgrow.com'')
   \<and> to_addr (confirmationEmail custom_recipient john) = Str (js ''john@company.com'')
   \<and> prefix (sent nothing_yet @ [mailOptions custom_recipient a_date john,
          confirmationEmail custom_recipient john])
        (sent (snd (submit_form always_resolves custom_recipient a_date (Some john) nothing_yet)))"
proof -
  have 1: "truthy (RECIPIENT_EMAIL custom_recipient)"
    and 2: "\<not> truthy (RECIPIENT_EMAIL empty_recipient)"
    and 3: "always_resolves (sent nothing_yet) (mailOptions custom_recipient a_date john) = Resolved"
    by (simp_all add: custom_recipient_def empty_recipient_def always_resolves_def js_def)
  note a = messages_addressing_and_content [OF valid_john, of nothing_yet custom_recipient
      a_date always_resolves]
  note b = messages_addressing_and_content [OF valid_john, of nothing_yet empty_recipient
      a_date always_resolves]
  from a 1 have "to_addr (mailOptions custom_recipient a_date john) = Str (js ''leads@example.com'')"
    by (simp add: custom_recipient_def)
  moreover from b 2
  have "to_addr (mailOptions empty_recipient a_date john) = Str (js ''hello@markgrow.com'')"
    by blast
  moreover from a
  have "to_addr (confirmationEmail custom_recipient john) = Str (js ''john@company.com'')"
    by (simp add: john_def)
  moreover from a 3
  have "prefix (sent nothing_yet @ [mailOptions custom_recipient a_date john,
          confirmationEmail custom_recipient john])
        (sent (snd (submit_form always_resolves custom_recipient a_date (Some john) nothing_yet)))"
    by blast
  ultimately show ?thesis by blast
qed

end
